theory Spec2Isabelle
  imports Main "HOL-Library.Word"
begin

section \<open>Go strings as byte lists\<close>

text \<open>
  A Go string is a sequence of bytes, and the functions of package \<open>strings\<close> used by the
  parser (\<open>Index\<close>, \<open>LastIndex\<close>, \<open>Contains\<close>, \<open>HasPrefix\<close>, \<open>Split\<close>, \<open>SplitN\<close>,
  \<open>ReplaceAll\<close>) work on bytes, so they are defined here on \<open>string\<close> (a list of 8-bit
  characters). Indices are \<open>int\<close>, with \<open>-1\<close> for "not found", as in Go.
\<close>

definition HasPrefix :: "string \<Rightarrow> string \<Rightarrow> bool" where
  "HasPrefix s p = (length p \<le> length s \<and> take (length p) s = p)"

fun Index :: "string \<Rightarrow> string \<Rightarrow> int" where
  "Index [] sub = (if sub = [] then 0 else -1)"
| "Index (c # cs) sub =
     (if HasPrefix (c # cs) sub then 0
      else (let i = Index cs sub in if i < 0 then -1 else i + 1))"

fun LastIndex :: "string \<Rightarrow> string \<Rightarrow> int" where
  "LastIndex [] sub = (if sub = [] then 0 else -1)"
| "LastIndex (c # cs) sub =
     (let i = LastIndex cs sub in
      if 0 \<le> i then i + 1
      else if HasPrefix (c # cs) sub then 0 else -1)"

definition Contains :: "string \<Rightarrow> string \<Rightarrow> bool" where
  "Contains s sub = (0 \<le> Index s sub)"

text \<open>\<open>strings.Split(s, sep)\<close> for a separator of one byte; \<open>Split "" sep\<close> is \<open>[""]\<close>.\<close>

fun Split :: "string \<Rightarrow> char \<Rightarrow> string list" where
  "Split [] sep = [[]]"
| "Split (c # cs) sep =
     (if c = sep then [] # Split cs sep
      else (case Split cs sep of [] \<Rightarrow> [[c]] | p # ps \<Rightarrow> (c # p) # ps))"

text \<open>\<open>strings.SplitN(s, sep, n)\<close> for a separator of one byte and \<open>n \<ge> 0\<close>: at most \<open>n\<close>
  pieces, the last one the unsplit rest.\<close>

fun SplitN :: "string \<Rightarrow> char \<Rightarrow> nat \<Rightarrow> string list" where
  "SplitN s sep 0 = []"
| "SplitN s sep (Suc 0) = [s]"
| "SplitN s sep (Suc (Suc n)) =
     (if sep \<in> set s
      then takeWhile (\<lambda>c. c \<noteq> sep) s # SplitN (tl (dropWhile (\<lambda>c. c \<noteq> sep) s)) sep (Suc n)
      else [s])"

text \<open>\<open>strings.ReplaceAll(s, old, new)\<close> for \<open>old\<close> of one byte.\<close>

definition ReplaceAll :: "string \<Rightarrow> char \<Rightarrow> string \<Rightarrow> string" where
  "ReplaceAll s old new = concat (map (\<lambda>c. if c = old then new else [c]) s)"

subsection \<open>Run-time panics\<close>

datatype panic =
  SliceBoundsOutOfRange | IndexOutOfRange | AssignmentToNilMap | NilPointerDereference

datatype 'a outcome = Returns 'a | Panics panic

text \<open>The slice expression \<open>s[lo:hi]\<close>: Go panics unless \<open>0 \<le> lo \<le> hi \<le> len(s)\<close>.\<close>

definition Slice :: "string \<Rightarrow> int \<Rightarrow> int \<Rightarrow> string outcome" where
  "Slice s lo hi =
     (if 0 \<le> lo \<and> lo \<le> hi \<and> hi \<le> int (length s)
      then Returns (take (nat (hi - lo)) (drop (nat lo) s))
      else Panics SliceBoundsOutOfRange)"

subsection \<open>Go maps\<close>

text \<open>A \<open>map[string]string\<close> is \<open>None\<close> when nil. Reading a nil map and taking its \<open>len\<close> are
  fine, writing to it panics.\<close>

type_synonym gomap = "(string \<rightharpoonup> string) option"

definition len_is_zero :: "gomap \<Rightarrow> bool" where
  "len_is_zero m = (case m of None \<Rightarrow> True | Some f \<Rightarrow> f = Map.empty)"

definition lookup :: "gomap \<Rightarrow> string \<Rightarrow> string option" where
  "lookup m k = (case m of None \<Rightarrow> None | Some f \<Rightarrow> f k)"

section \<open>Data model\<close>

record VideoFormat =
  Quality :: string
  FormatURL :: string
  Size :: "64 word"

record Talk =
  Title :: string
  Speaker :: string
  URL :: string
  Description :: string
  Duration :: string
  PublishedDate :: string
  Views :: string
  VideoURLs :: gomap
  VideoFormats :: "VideoFormat list"
  SubtitleURLs :: gomap

text \<open>The composite literal \<open>Talk{}\<close>: every field has its zero value.\<close>

definition zero_Talk :: Talk where
  "zero_Talk = \<lparr>Title = [], Speaker = [], URL = [], Description = [], Duration = [],
     PublishedDate = [], Views = [], VideoURLs = None, VideoFormats = [], SubtitleURLs = None\<rparr>"

text \<open>The anonymous struct decoded from the embedded script (lines 189-203).\<close>

record h264 =
  h264_Quality :: string
  h264_Size :: "64 word"
  h264_URL :: string

record resources =
  H264 :: "h264 list"

record player_talk =
  Resources :: resources

record talks_entry =
  PlayerTalks :: "player_talk list"

record player_data =
  Talks :: "talks_entry list"

record script_data =
  PlayerData :: player_data

text \<open>The anonymous struct decoded from the GraphQL response (lines 359-380).\<close>

record native_downloads =
  NativeLow :: string
  NativeMedium :: string
  NativeHigh :: string

record subtitled_download =
  Low :: string
  High :: string
  InternalLanguageCode :: string
  LanguageName :: string

record video_node =
  NativeDownloads :: native_downloads
  SubtitledDownloads :: "subtitled_download list"

record graphql_error =
  Message :: string

record graphql_result =
  Nodes :: "video_node list"
  Errors :: "graphql_error list"

subsection \<open>Errors\<close>

text \<open>One constructor for each \<open>fmt.Errorf\<close> of the parser; the wrapped cause of a transport
  or decoding error is not kept.\<close>

datatype error =
    FetchTalksListFailed
  | ParseHTMLFailed
  | FetchTalkPageFailed
  | ParseTalkPageFailed
  | ExtractVideoURLsFailed error
  | ExtractSubtitleURLsFailed error
  | InvalidTalkURL
  | CreateRequestFailed
  | SendRequestFailed
  | ReadResponseFailed
  | DecodeResponseFailed
  | GraphQLError string
  | NoVideoDataFound
  | ReadHTMLFailed
  | NoVideoOrSubtitleData

subsection \<open>The network, the markup library and the JSON decoder\<close>

datatype client = ParserClient | DefaultClient

text \<open>A request is a GET by one of the two HTTP clients, or the POST of the \<open>shareLinks\<close>
  query: its URL, the slug in its variables and its Referer (everything else in it is fixed).\<close>

datatype request = Get client string | Post string string string

text \<open>\<open>Body\<close> is \<open>None\<close> when reading the body fails. \<open>StatusCode\<close> is carried as the
  response has it; the parser never looks at it.\<close>

record response =
  StatusCode :: int
  Body :: "string option"

datatype debug_message =
    ProcessingSlug string
  | GraphQLParsingFailed error
  | FallingBackToHTML
  | FailedToParseVideoJSON
  | SuccessfullyParsed string string
  | AvailableSubtitles gomap
  | ExtractVideoFromHTMLFailed error
  | ExtractSubtitleFromHTMLFailed error
  | FallbackCompleted string

datatype printed_line = DebugLine debug_message | WarningLine string error

text \<open>
  What the parser does not implement itself is a parameter: the package variable
  \<open>baseURL\<close>, the network (\<open>transport\<close> answers a request given the requests issued before
  it, \<open>None\<close> for an error; \<open>failed_with_response\<close> tells whether the client returns a
  non-nil \<open>Response\<close> beside that error, which it does only when the redirect policy
  failed), \<open>http.NewRequest\<close> (which fails on a URL it cannot parse, such as one with a
  control character), goquery (\<open>NewDocument\<close> is \<open>NewDocumentFromReader\<close> on the bytes read, \<open>Find\<close> the
  descendants of a node matching a selector in document order, \<open>Text\<close>, \<open>Attr\<close> and
  \<open>HasClass\<close> of one node), \<open>json.Unmarshal\<close> into each of the two structs, and the
  Unicode-aware \<open>strings.ToLower\<close> and \<open>strings.TrimSpace\<close>. The type \<open>'n\<close> is the type of
  markup nodes.
\<close>

record 'n world =
  baseURL :: string
  transport :: "request list \<Rightarrow> request \<Rightarrow> response option"
  failed_with_response :: "request list \<Rightarrow> request \<Rightarrow> bool"
  NewRequest_ok :: "string \<Rightarrow> bool"
  NewDocument :: "string \<Rightarrow> 'n option"
  Find :: "'n \<Rightarrow> string \<Rightarrow> 'n list"
  Text :: "'n \<Rightarrow> string"
  Attr :: "'n \<Rightarrow> string \<Rightarrow> string option"
  HasClass :: "'n \<Rightarrow> string \<Rightarrow> bool"
  Unmarshal_script :: "string \<Rightarrow> script_data option"
  Unmarshal_graphql :: "string \<Rightarrow> graphql_result option"
  ToLower :: "string \<Rightarrow> string"
  TrimSpace :: "string \<Rightarrow> string"

text \<open>The \<open>Parser\<close> struct, with the requests issued and the lines printed so far.\<close>

record state =
  Debug :: bool
  GraphqlURL :: string
  RawResponses :: gomap
  requests :: "request list"
  printed :: "printed_line list"

text \<open>Methods of a goquery selection (a list of nodes): \<open>Text\<close> joins the texts of its
  nodes, \<open>Attr\<close> reads the first node, \<open>First\<close> keeps the first node.\<close>

definition SelText :: "'n world \<Rightarrow> 'n list \<Rightarrow> string" where
  "SelText w ns = concat (map (Text w) ns)"

definition SelAttr :: "'n world \<Rightarrow> 'n list \<Rightarrow> string \<Rightarrow> string option" where
  "SelAttr w ns a = (case ns of [] \<Rightarrow> None | n # _ \<Rightarrow> Attr w n a)"

definition First :: "'n list \<Rightarrow> 'n list" where
  "First ns = take 1 ns"

definition do_request :: "'n world \<Rightarrow> state \<Rightarrow> request \<Rightarrow> response option \<times> state" where
  "do_request w st r = (transport w (requests st) r, st\<lparr>requests := requests st @ [r]\<rparr>)"

text \<open>\<open>client.Get(url)\<close> and \<open>http.Get(url)\<close> build the request with \<open>NewRequest\<close> first:
  for a URL it refuses they return an error and nothing is requested.\<close>

definition client_Get ::
    "'n world \<Rightarrow> state \<Rightarrow> client \<Rightarrow> string \<Rightarrow> response option \<times> state" where
  "client_Get w st c url =
     (if NewRequest_ok w url then do_request w st (Get c url) else (None, st))"

text \<open>\<open>goquery.NewDocumentFromReader(resp.Body)\<close>: fails when the body cannot be read or
  parsed.\<close>

definition NewDocumentFromReader :: "'n world \<Rightarrow> response \<Rightarrow> 'n option" where
  "NewDocumentFromReader w resp = (case Body resp of None \<Rightarrow> None | Some b \<Rightarrow> NewDocument w b)"

section \<open>The parser\<close>

text \<open>\<open>debugPrint\<close> (line 63) and \<open>storeRawResponse\<close> (line 70).\<close>

definition debugPrint :: "state \<Rightarrow> debug_message \<Rightarrow> state" where
  "debugPrint st m = (if Debug st then st\<lparr>printed := printed st @ [DebugLine m]\<rparr> else st)"

definition storeRawResponse :: "state \<Rightarrow> string \<Rightarrow> string \<Rightarrow> state outcome" where
  "storeRawResponse st key data =
     (if Debug st
      then (case RawResponses st of
              None \<Rightarrow> Panics AssignmentToNilMap
            | Some m \<Rightarrow> Returns (st\<lparr>RawResponses := Some (m(key \<mapsto> data))\<rparr>))
      else Returns st)"

subsection \<open>\<open>extractVideoURLs\<close> (lines 179-230)\<close>

text \<open>The body of the loop over \<open>resources.H264\<close> (lines 213-224).\<close>

definition add_h264 :: "h264 \<Rightarrow> Talk \<Rightarrow> Talk" where
  "add_h264 h talk =
     talk\<lparr>VideoFormats := VideoFormats talk @
             [\<lparr>Quality = h264_Quality h, FormatURL = h264_URL h, Size = h264_Size h\<rparr>],
          VideoURLs := Some ((case VideoURLs talk of None \<Rightarrow> Map.empty | Some m \<Rightarrow> m)
                             (h264_Quality h \<mapsto> h264_URL h))\<rparr>"

text \<open>Lines 211-225: the entries of \<open>Talks[0].PlayerTalks[0]\<close>, when both exist.\<close>

definition add_formats :: "script_data \<Rightarrow> Talk \<Rightarrow> Talk" where
  "add_formats data talk =
     (case Talks (PlayerData data) of
        [] \<Rightarrow> talk
      | t0 # _ \<Rightarrow>
          (case PlayerTalks t0 of
             [] \<Rightarrow> talk
           | pt0 # _ \<Rightarrow> fold add_h264 (H264 (Resources pt0)) talk))"

text \<open>The callback given to \<open>Each\<close> for one script element (lines 181-228).\<close>

definition script_callback :: "'n world \<Rightarrow> state \<Rightarrow> 'n \<Rightarrow> Talk \<Rightarrow> Talk outcome \<times> state" where
  "script_callback w st s talk =
     (let text = Text w s in
      if Contains text ''talkPage.init'' then
        (let start = Index text ''{''; end = LastIndex text ''}'' in
         if start \<noteq> -1 \<and> end \<noteq> -1 then
           (case Slice text start (end + 1) of
              Panics p \<Rightarrow> (Panics p, st)
            | Returns jsonData \<Rightarrow>
                (case Unmarshal_script w jsonData of
                   None \<Rightarrow> (Returns talk, debugPrint st FailedToParseVideoJSON)
                 | Some data \<Rightarrow> (Returns (add_formats data talk), st)))
         else (Returns talk, st))
      else (Returns talk, st))"

text \<open>\<open>Each\<close> calls the callback on every script element in document order; a \<open>return\<close> in
  the callback ends that call only.\<close>

fun each_script :: "'n world \<Rightarrow> state \<Rightarrow> 'n list \<Rightarrow> Talk \<Rightarrow> Talk outcome \<times> state" where
  "each_script w st [] talk = (Returns talk, st)"
| "each_script w st (s # ss) talk =
     (case script_callback w st s talk of
        (Panics p, st') \<Rightarrow> (Panics p, st')
      | (Returns talk', st') \<Rightarrow> each_script w st' ss talk')"

text \<open>A method that takes \<open>talk *Talk\<close> and returns \<open>error\<close> gives back the error and the talk
  as it left it.\<close>

definition extractVideoURLs ::
    "'n world \<Rightarrow> state \<Rightarrow> 'n \<Rightarrow> Talk \<Rightarrow> (error option \<times> Talk) outcome \<times> state" where
  "extractVideoURLs w st doc talk =
     (case each_script w st (Find w doc ''script'') talk of
        (Panics p, st') \<Rightarrow> (Panics p, st')
      | (Returns talk', st') \<Rightarrow> (Returns (None, talk'), st'))"

subsection \<open>\<open>extractSubtitleURLs\<close> (lines 233-249)\<close>

definition anchor_callback :: "'n world \<Rightarrow> 'n \<Rightarrow> (string \<rightharpoonup> string) \<Rightarrow> (string \<rightharpoonup> string)" where
  "anchor_callback w s m =
     (let lang = (case Attr w s ''data-language'' of None \<Rightarrow> [] | Some l \<Rightarrow> l) in
      case Attr w s ''href'' of
        None \<Rightarrow> m
      | Some url \<Rightarrow>
          if lang \<noteq> [] then
            m(lang \<mapsto> (if \<not> HasPrefix url ''http'' then baseURL w @ url else url))
          else m)"

definition extractSubtitleURLs :: "'n world \<Rightarrow> 'n \<Rightarrow> Talk \<Rightarrow> error option \<times> Talk" where
  "extractSubtitleURLs w doc talk =
     (None, talk\<lparr>SubtitleURLs :=
        Some (fold (anchor_callback w) (Find w doc ''a[data-language]'') Map.empty)\<rparr>)"

subsection \<open>\<open>parseTalkDetails\<close> (lines 149-176)\<close>

definition parseTalkDetails ::
    "'n world \<Rightarrow> state \<Rightarrow> Talk \<Rightarrow> (error option \<times> Talk) outcome \<times> state" where
  "parseTalkDetails w st talk =
     (case client_Get w st ParserClient (URL talk) of
        (None, st1) \<Rightarrow> (Returns (Some FetchTalkPageFailed, talk), st1)
      | (Some resp, st1) \<Rightarrow>
          (case NewDocumentFromReader w resp of
             None \<Rightarrow> (Returns (Some ParseTalkPageFailed, talk), st1)
           | Some doc \<Rightarrow>
               (case extractVideoURLs w st1 doc talk of
                  (Panics p, st2) \<Rightarrow> (Panics p, st2)
                | (Returns (Some e, talk1), st2) \<Rightarrow>
                    (Returns (Some (ExtractVideoURLsFailed e), talk1), st2)
                | (Returns (None, talk1), st2) \<Rightarrow>
                    (case extractSubtitleURLs w doc talk1 of
                       (Some e, talk2) \<Rightarrow> (Returns (Some (ExtractSubtitleURLsFailed e), talk2), st2)
                     | (None, talk2) \<Rightarrow> (Returns (None, talk2), st2)))))"

subsection \<open>\<open>parseTalksList\<close> (lines 95-146) and \<open>ParseTopic\<close> (lines 82-92)\<close>

text \<open>Lines 117-135: the talk built from one listing block.\<close>

definition listing_talk :: "'n world \<Rightarrow> 'n \<Rightarrow> Talk" where
  "listing_talk w s =
     (let titleLink = (if HasClass w s ''search__result'' then Find w s ''h3 a''
                       else Find w s ''.media__message__title a'');
          title = TrimSpace w (SelText w titleLink);
          speaker = TrimSpace w
            (SelText w (Find w s ''.media__message__speaker h4, .search__result__speaker''));
          url = (case SelAttr w titleLink ''href'' of None \<Rightarrow> [] | Some u \<Rightarrow> u);
          url = (if \<not> HasPrefix url ''http'' then baseURL w @ url else url)
      in zero_Talk\<lparr>Title := title, Speaker := speaker, URL := url\<rparr>)"

text \<open>\<open>Each\<close> over the listing blocks, with the index \<open>i\<close> of the block and the slice
  \<open>talks\<close> built so far (lines 112-143).\<close>

fun each_block ::
    "'n world \<Rightarrow> state \<Rightarrow> int \<Rightarrow> int \<Rightarrow> 'n list \<Rightarrow> Talk list \<Rightarrow> Talk list outcome \<times> state" where
  "each_block w st i limit [] talks = (Returns talks, st)"
| "each_block w st i limit (s # ss) talks =
     (if i \<ge> limit then each_block w st (i + 1) limit ss talks
      else
        (let talk = listing_talk w s in
         case parseTalkDetails w st talk of
           (Panics p, st') \<Rightarrow> (Panics p, st')
         | (Returns (err, talk'), st') \<Rightarrow>
             each_block w
               (case err of
                  None \<Rightarrow> st'
                | Some e \<Rightarrow> st'\<lparr>printed := printed st' @ [WarningLine (URL talk) e]\<rparr>)
               (i + 1) limit ss (talks @ [talk'])))"

definition parseTalksList ::
    "'n world \<Rightarrow> state \<Rightarrow> string \<Rightarrow> int \<Rightarrow> (error + Talk list) outcome \<times> state" where
  "parseTalksList w st url limit =
     (case client_Get w st ParserClient url of
        (None, st1) \<Rightarrow> (Returns (Inl FetchTalksListFailed), st1)
      | (Some resp, st1) \<Rightarrow>
          (case NewDocumentFromReader w resp of
             None \<Rightarrow> (Returns (Inl ParseHTMLFailed), st1)
           | Some doc \<Rightarrow>
               (case each_block w st1 0 limit
                       (Find w doc ''.media__message, .search__result'') [] of
                  (Panics p, st2) \<Rightarrow> (Panics p, st2)
                | (Returns talks, st2) \<Rightarrow> (Returns (Inr talks), st2))))"

definition ParseTopic ::
    "'n world \<Rightarrow> state \<Rightarrow> string \<Rightarrow> int \<Rightarrow> (error + Talk list) outcome \<times> state" where
  "ParseTopic w st query limit =
     (if \<not> Contains query '' ''
      then parseTalksList w st (baseURL w @ ''/talks?topics[]='' @ query) limit
      else parseTalksList w st
             (baseURL w @ ''/search?q='' @ ReplaceAll query (CHR '' '') ''+'') limit)"

subsection \<open>\<open>parseWithGraphQL\<close> (lines 281-452)\<close>

text \<open>Lines 404-410: the first entry whose language code is \<open>"en"\<close> gives both video URLs.\<close>

fun english_video_urls ::
    "subtitled_download list \<Rightarrow> (string \<rightharpoonup> string) \<Rightarrow> (string \<rightharpoonup> string)" where
  "english_video_urls [] m = m"
| "english_video_urls (sub # subs) m =
     (if InternalLanguageCode sub = ''en''
      then (m(''720p'' \<mapsto> Low sub))(''1080p'' \<mapsto> High sub)
      else english_video_urls subs m)"

text \<open>Lines 414-419: every entry with a non-empty \<open>Low\<close> is stored under its lowercased code.\<close>

fun subtitle_urls ::
    "'n world \<Rightarrow> subtitled_download list \<Rightarrow> (string \<rightharpoonup> string) \<Rightarrow> (string \<rightharpoonup> string)" where
  "subtitle_urls w [] m = m"
| "subtitle_urls w (sub # subs) m =
     (if Low sub \<noteq> []
      then subtitle_urls w subs (m(ToLower w (InternalLanguageCode sub) \<mapsto> Low sub))
      else subtitle_urls w subs m)"

text \<open>Lines 282-392: the request and the decoding of its response, up to the first node.
  \<open>json.Marshal\<close> of the request body (strings only) cannot fail.\<close>

definition graphql_first_node ::
    "'n world \<Rightarrow> state \<Rightarrow> string \<Rightarrow> string \<Rightarrow> (error + video_node) outcome \<times> state" where
  "graphql_first_node w st slug url =
     (if \<not> NewRequest_ok w (GraphqlURL st) then (Returns (Inl CreateRequestFailed), st)
      else
        (case do_request w st (Post (GraphqlURL st) slug url) of
           (None, st1) \<Rightarrow> (Returns (Inl SendRequestFailed), st1)
         | (Some resp, st1) \<Rightarrow>
             (case Body resp of
                None \<Rightarrow> (Returns (Inl ReadResponseFailed), st1)
              | Some rawResp \<Rightarrow>
                  (case storeRawResponse st1 (''graphql_'' @ slug) rawResp of
                     Panics p \<Rightarrow> (Panics p, st1)
                   | Returns st2 \<Rightarrow>
                       (case Unmarshal_graphql w rawResp of
                          None \<Rightarrow> (Returns (Inl DecodeResponseFailed), st2)
                        | Some result \<Rightarrow>
                            (case Errors result of
                               e # _ \<Rightarrow> (Returns (Inl (GraphQLError (Message e))), st2)
                             | [] \<Rightarrow>
                                 (case Nodes result of
                                    [] \<Rightarrow> (Returns (Inl NoVideoDataFound), st2)
                                  | node # _ \<Rightarrow> (Returns (Inr node), st2))))))))"

text \<open>Lines 394-451. The closure deferred at line 345 closes the body of whatever \<open>resp\<close>
  holds when the function returns. Line 422 assigns \<open>resp\<close> again: when that \<open>http.Get\<close>
  fails, \<open>resp\<close> is nil unless the failure came with a response, and the closure
  dereferences a nil pointer as the function returns its error.\<close>

definition parseWithGraphQL ::
    "'n world \<Rightarrow> state \<Rightarrow> string \<Rightarrow> string \<Rightarrow> (error + Talk) outcome \<times> state" where
  "parseWithGraphQL w st slug url =
     (case graphql_first_node w st slug url of
        (Panics p, st2) \<Rightarrow> (Panics p, st2)
      | (Returns (Inl e), st2) \<Rightarrow> (Returns (Inl e), st2)
      | (Returns (Inr node), st2) \<Rightarrow>
          (let talk = zero_Talk\<lparr>URL := url\<rparr>;
               talk = talk\<lparr>VideoURLs :=
                        Some (english_video_urls (SubtitledDownloads node) Map.empty)\<rparr>;
               talk = talk\<lparr>SubtitleURLs :=
                        Some (subtitle_urls w (SubtitledDownloads node) Map.empty)\<rparr>
           in
           case client_Get w st2 DefaultClient url of
             (None, st3) \<Rightarrow>
               if NewRequest_ok w url \<and>
                  failed_with_response w (requests st2) (Get DefaultClient url)
               then (Returns (Inl FetchTalkPageFailed), st3)
               else (Panics NilPointerDereference, st3)
           | (Some resp, st3) \<Rightarrow>
               (case Body resp of
                  None \<Rightarrow> (Returns (Inl ReadHTMLFailed), st3)
                | Some rawHTML \<Rightarrow>
                    (case storeRawResponse st3 (''html_'' @ slug) rawHTML of
                       Panics p \<Rightarrow> (Panics p, st3)
                     | Returns st4 \<Rightarrow>
                         (case NewDocument w rawHTML of
                            None \<Rightarrow> (Returns (Inl ParseTalkPageFailed), st4)
                          | Some doc \<Rightarrow>
                              (let talk = talk\<lparr>Title := SelText w (First (Find w doc ''h1''))\<rparr>;
                                   talk = talk\<lparr>Speaker := SelText w (First (Find w doc ''h2''))\<rparr>;
                                   st5 = debugPrint st4
                                           (SuccessfullyParsed (Title talk) (Speaker talk));
                                   st6 = debugPrint st5 (AvailableSubtitles (SubtitleURLs talk))
                               in (Returns (Inr talk), st6)))))))"

subsection \<open>\<open>parseWithHTML\<close> (lines 455-504)\<close>

text \<open>The two \<open>debugPrint\<close> calls of lines 488 and 493 are under \<open>err != nil\<close> of
  \<open>extractVideoURLs\<close> and \<open>extractSubtitleURLs\<close>; an error of either is printed and the
  function goes on.\<close>

text \<open>Lines 456-496: the page is fetched and everything is extracted from it.\<close>

definition parseWithHTML_extract ::
    "'n world \<Rightarrow> state \<Rightarrow> string \<Rightarrow> (error + Talk) outcome \<times> state" where
  "parseWithHTML_extract w st url =
     (case client_Get w st ParserClient url of
        (None, st1) \<Rightarrow> (Returns (Inl FetchTalkPageFailed), st1)
      | (Some resp, st1) \<Rightarrow>
          (case Body resp of
             None \<Rightarrow> (Returns (Inl ReadHTMLFailed), st1)
           | Some rawHTML \<Rightarrow>
               (case storeRawResponse st1 ''html_fallback'' rawHTML of
                  Panics p \<Rightarrow> (Panics p, st1)
                | Returns st2 \<Rightarrow>
                    (case NewDocument w rawHTML of
                       None \<Rightarrow> (Returns (Inl ParseTalkPageFailed), st2)
                     | Some doc \<Rightarrow>
                         (let talk = zero_Talk\<lparr>URL := url\<rparr>;
                              talk = talk\<lparr>Title := SelText w (First (Find w doc ''h1''))\<rparr>;
                              talk = talk\<lparr>Speaker := SelText w (First (Find w doc ''h2''))\<rparr>
                          in
                          case extractVideoURLs w st2 doc talk of
                            (Panics p, st3) \<Rightarrow> (Panics p, st3)
                          | (Returns (verr, talk1), st3) \<Rightarrow>
                              (let st4 = (case verr of None \<Rightarrow> st3
                                          | Some e \<Rightarrow>
                                              debugPrint st3 (ExtractVideoFromHTMLFailed e));
                                   (serr, talk2) = extractSubtitleURLs w doc talk1;
                                   st5 = (case serr of None \<Rightarrow> st4
                                          | Some e \<Rightarrow>
                                              debugPrint st4 (ExtractSubtitleFromHTMLFailed e));
                                   st6 = debugPrint st5 (FallbackCompleted (Title talk2))
                               in (Returns (Inr talk2), st6)))))))"

text \<open>Lines 498-503: with neither a video nor a subtitle URL the result is the error.\<close>

definition parseWithHTML ::
    "'n world \<Rightarrow> state \<Rightarrow> string \<Rightarrow> (error + Talk) outcome \<times> state" where
  "parseWithHTML w st url =
     (case parseWithHTML_extract w st url of
        (Panics p, st6) \<Rightarrow> (Panics p, st6)
      | (Returns (Inl err), st6) \<Rightarrow> (Returns (Inl err), st6)
      | (Returns (Inr talk), st6) \<Rightarrow>
          if len_is_zero (VideoURLs talk) \<and> len_is_zero (SubtitleURLs talk)
          then (Returns (Inl NoVideoOrSubtitleData), st6)
          else (Returns (Inr talk), st6))"

subsection \<open>\<open>ParseURL\<close> (lines 252-278)\<close>

text \<open>The loop of lines 257-262 runs over \<open>parts\<close> from its last element to its first; here
  it runs over the reversed list.\<close>

fun last_nonempty :: "string list \<Rightarrow> string" where
  "last_nonempty [] = []"
| "last_nonempty (p # ps) = (if p \<noteq> [] then p else last_nonempty ps)"

definition ParseURL :: "'n world \<Rightarrow> state \<Rightarrow> string \<Rightarrow> (error + Talk) outcome \<times> state" where
  "ParseURL w st url =
     (case SplitN url (CHR ''?'') 2 of
        [] \<Rightarrow> (Panics IndexOutOfRange, st)
      | u # _ \<Rightarrow>
          (let parts = Split u (CHR ''/'');
               slug = last_nonempty (rev parts)
           in
           if slug = [] \<or> Contains slug ''.'' \<or> \<not> Contains u ''/talks/''
           then (Returns (Inl InvalidTalkURL), st)
           else
             (let st1 = debugPrint st (ProcessingSlug slug) in
              case parseWithGraphQL w st1 slug url of
                (Panics p, st2) \<Rightarrow> (Panics p, st2)
              | (Returns (Inr talk), st2) \<Rightarrow> (Returns (Inr talk), st2)
              | (Returns (Inl err), st2) \<Rightarrow>
                  (let st3 = debugPrint st2 (GraphQLParsingFailed err);
                       st4 = debugPrint st3 FallingBackToHTML
                   in parseWithHTML w st4 url))))"

section \<open>Notions used in the statements\<close>

text \<open>The scripts on which the slice expression of line 188 is out of bounds: marker and
  both braces present, the last \<open>}\<close> more than one position before the first \<open>{\<close>.\<close>

definition slice_panics :: "string \<Rightarrow> bool" where
  "slice_panics text =
     (Contains text ''talkPage.init'' \<and> Index text ''{'' \<noteq> - 1 \<and> LastIndex text ''}'' \<noteq> - 1 \<and>
      LastIndex text ''}'' + 1 < Index text ''{'')"

text \<open>The world in which responses carry the status \<open>f\<close> gives them, and are otherwise those
  of \<open>w\<close>.\<close>

definition status_override :: "(request list \<Rightarrow> request \<Rightarrow> int) \<Rightarrow> 'n world \<Rightarrow> 'n world" where
  "status_override f w =
     w\<lparr>transport := (\<lambda>h r. map_option (\<lambda>resp. resp\<lparr>StatusCode := f h r\<rparr>) (transport w h r))\<rparr>"

text \<open>The URLs for which a warning line was printed, in the order of printing.\<close>

definition warned_urls :: "printed_line list \<Rightarrow> string list" where
  "warned_urls ps =
     concat (map (\<lambda>l. case l of WarningLine u e \<Rightarrow> [u] | DebugLine m \<Rightarrow> []) ps)"


section \<open>Embedded-script extraction as the specification words it\<close>

text \<open>The JSON document of a script: its text from the first \<open>{\<close> to the last \<open>}\<close>
  inclusive.\<close>

definition spec_json_text :: "string \<Rightarrow> string" where
  "spec_json_text text =
     dropWhile (\<lambda>c. c \<noteq> CHR ''{'') (rev (dropWhile (\<lambda>c. c \<noteq> CHR ''}'') (rev text)))"

text \<open>The entries at \<open>playerData.talks[0].player_talks[0].resources.h264\<close>, none when a
  list on the way is empty.\<close>

definition data_entries :: "script_data \<Rightarrow> h264 list" where
  "data_entries data =
     (case Talks (PlayerData data) of
        [] \<Rightarrow> []
      | t0 # _ \<Rightarrow> (case PlayerTalks t0 of [] \<Rightarrow> [] | pt0 # _ \<Rightarrow> H264 (Resources pt0)))"

text \<open>The entries one script element contributes: those of its decoded JSON document when
  it has the marker and both braces, none otherwise or when decoding fails.\<close>

definition spec_script_entries :: "'n world \<Rightarrow> 'n \<Rightarrow> h264 list" where
  "spec_script_entries w s =
     (let text = Text w s in
      if Contains text ''talkPage.init'' \<and> CHR ''{'' \<in> set text \<and> CHR ''}'' \<in> set text
      then (case Unmarshal_script w (spec_json_text text) of
              None \<Rightarrow> []
            | Some data \<Rightarrow> data_entries data)
      else [])"

text \<open>The entries of the first script element that has the marker, and of no other.\<close>

definition spec_first_match_entries :: "'n world \<Rightarrow> 'n \<Rightarrow> h264 list" where
  "spec_first_match_entries w doc =
     (case filter (\<lambda>s. Contains (Text w s) ''talkPage.init'') (Find w doc ''script'') of
        [] \<Rightarrow> []
      | s # _ \<Rightarrow> spec_script_entries w s)"

section \<open>Example parsers and worlds\<close>

text \<open>The parser as \<open>New\<close> (line 49) makes it, with nothing requested or printed yet.\<close>

definition New :: state where
  "New = \<lparr>Debug = False, GraphqlURL = ''https://www.ted.com/graphql'',
     RawResponses = Some Map.empty, requests = [], printed = []\<rparr>"

text \<open>The URLs without an ASCII control character (a byte below \<open>0x20\<close>, or \<open>0x7F\<close>).
  \<open>url.Parse\<close>, and with it \<open>NewRequest\<close>, refuses a URL that has one; the example worlds
  take this as all that \<open>NewRequest\<close> refuses, which is so for the URLs of the examples.\<close>

definition no_control_byte :: "string \<Rightarrow> bool" where
  "no_control_byte u = list_all (\<lambda>c. 32 \<le> (of_char c :: nat) \<and> (of_char c :: nat) \<noteq> 127) u"

text \<open>A world over markup nodes numbered by \<open>nat\<close> in which \<open>NewRequest\<close> accepts the URLs
  without a control character, every request fails in transport and every document is
  empty; the examples below change what they need.\<close>

definition blank_world :: "nat world" where
  "blank_world = \<lparr>baseURL = ''https://www.ted.com'',
     transport = (\<lambda>h r. None), failed_with_response = (\<lambda>h r. False),
     NewRequest_ok = no_control_byte, NewDocument = (\<lambda>b. None),
     Find = (\<lambda>n sel. []), Text = (\<lambda>n. []), Attr = (\<lambda>n a. None), HasClass = (\<lambda>n c. False),
     Unmarshal_script = (\<lambda>j. None), Unmarshal_graphql = (\<lambda>j. None),
     ToLower = (\<lambda>s. s), TrimSpace = (\<lambda>s. s)\<rparr>"

text \<open>A decoded script with the given entries under \<open>talks[0].player_talks[0]\<close>.\<close>

definition script_with :: "h264 list \<Rightarrow> script_data" where
  "script_with hs =
     \<lparr>PlayerData = \<lparr>Talks = [\<lparr>PlayerTalks = [\<lparr>Resources = \<lparr>H264 = hs\<rparr>\<rparr>]\<rparr>]\<rparr>\<rparr>"

text \<open>A page (node 0) with two script elements (nodes 2 and 3), both with the marker: the
  first holds the entries for 1080p and 720p, the second one for 480p.\<close>

definition two_scripts_world :: "nat world" where
  "two_scripts_world = blank_world
     \<lparr>Find := (\<lambda>n sel. if n = 0 \<and> sel = ''script'' then [2, 3] else []),
      Text := (\<lambda>n. if n = 2 then ''talkPage.init({a})''
                   else if n = 3 then ''talkPage.init({b})'' else []),
      Unmarshal_script := (\<lambda>j.
        if j = ''{a}'' then
          Some (script_with
            [\<lparr>h264_Quality = ''1080p'', h264_Size = 1000000, h264_URL = ''u1''\<rparr>,
             \<lparr>h264_Quality = ''720p'', h264_Size = 500000, h264_URL = ''u2''\<rparr>])
        else if j = ''{b}'' then
          Some (script_with [\<lparr>h264_Quality = ''480p'', h264_Size = 0, h264_URL = ''u3''\<rparr>])
        else None)\<rparr>"

text \<open>A page (node 0) whose only script element (node 2) has its last \<open>}\<close> at index 0 and
  its first \<open>{\<close> at index 16.\<close>

definition panic_world :: "nat world" where
  "panic_world = blank_world
     \<lparr>Find := (\<lambda>n sel. if n = 0 \<and> sel = ''script'' then [2] else []),
      Text := (\<lambda>n. if n = 2 then ''} talkPage.init({'' else [])\<rparr>"

text \<open>A result node with the given subtitled downloads.\<close>

definition graphql_node :: "subtitled_download list \<Rightarrow> video_node" where
  "graphql_node subs =
     \<lparr>NativeDownloads = \<lparr>NativeLow = [], NativeMedium = [], NativeHigh = []\<rparr>,
      SubtitledDownloads = subs\<rparr>"

text \<open>A world in which the GraphQL endpoint answers with that one node, and every page is
  the document node 0, with no script, anchor or heading.\<close>

definition graphql_world :: "subtitled_download list \<Rightarrow> nat world" where
  "graphql_world subs = blank_world
     \<lparr>transport := (\<lambda>h r. case r of
         Post u slug referer \<Rightarrow> Some \<lparr>StatusCode = 200, Body = Some ''g''\<rparr>
       | Get c u \<Rightarrow> Some \<lparr>StatusCode = 200, Body = Some ''h''\<rparr>),
      NewDocument := (\<lambda>b. if b = ''h'' then Some 0 else None),
      Unmarshal_graphql := (\<lambda>j. if j = ''g'' then
         Some \<lparr>Nodes = [graphql_node subs], Errors = []\<rparr> else None)\<rparr>"

definition sub_en :: subtitled_download where
  "sub_en = \<lparr>Low = ''A'', High = ''H'', InternalLanguageCode = ''en'',
     LanguageName = ''English''\<rparr>"

definition sub_zh :: subtitled_download where
  "sub_zh = \<lparr>Low = ''B'', High = ''I'', InternalLanguageCode = ''zh-cn'',
     LanguageName = ''Chinese, Simplified''\<rparr>"

text \<open>A second entry for \<open>"en"\<close>, with other URLs.\<close>

definition sub_en2 :: subtitled_download where
  "sub_en2 = \<lparr>Low = ''C'', High = ''J'', InternalLanguageCode = ''en'',
     LanguageName = ''English''\<rparr>"

text \<open>A world in which the GraphQL request fails in transport and every page is fetched
  with the given status; the page (node 0) has the headings 4 and 5 and one subtitle
  anchor (node 6) for \<open>"en"\<close>, and no script.\<close>

definition markup_world :: "int \<Rightarrow> nat world" where
  "markup_world status = blank_world
     \<lparr>transport := (\<lambda>h r. case r of
         Post u slug referer \<Rightarrow> None
       | Get c u \<Rightarrow> Some \<lparr>StatusCode = status, Body = Some ''p''\<rparr>),
      NewDocument := (\<lambda>b. if b = ''p'' then Some 0 else None),
      Find := (\<lambda>n sel. if n = 0 \<and> sel = ''h1'' then [4]
                        else if n = 0 \<and> sel = ''h2'' then [5]
                        else if n = 0 \<and> sel = ''a[data-language]'' then [6] else []),
      Text := (\<lambda>n. if n = 4 then ''T'' else if n = 5 then ''S'' else []),
      Attr := (\<lambda>n a. if n = 6 \<and> a = ''data-language'' then Some ''en''
                      else if n = 6 \<and> a = ''href'' then Some ''/talks/subtitles/en''
                      else None)\<rparr>"

text \<open>The talk the markup path builds from that page.\<close>

definition markup_talk :: Talk where
  "markup_talk = zero_Talk
     \<lparr>Title := ''T'', Speaker := ''S'', URL := ''https://www.ted.com/talks/x'',
      SubtitleURLs := Some [''en'' \<mapsto> ''https://www.ted.com/talks/subtitles/en'']\<rparr>"


text \<open>The query \<open>a<TAB>b\<close>, and the query of \<open>a\<close>, a no-break space (U+00A0 in UTF-8)
  and \<open>b\<close>.\<close>

definition tab_query :: string where
  "tab_query = [CHR ''a'', CHR 0x09, CHR ''b'']"

definition nbsp_query :: string where
  "nbsp_query = [CHR ''a'', CHR 0xC2, CHR 0xA0, CHR ''b'']"

text \<open>A world in which every page is a listing (node 9) without blocks.\<close>

definition empty_listing_world :: "nat world" where
  "empty_listing_world = blank_world
     \<lparr>transport := (\<lambda>h r. Some \<lparr>StatusCode = 200, Body = Some ''l''\<rparr>),
      NewDocument := (\<lambda>b. if b = ''l'' then Some 9 else None)\<rparr>"





section \<open>Facts about the string functions\<close>

text \<open>These tie the recursive definitions above to what the Go documentation says of each
  function.\<close>

lemma HasPrefix_iff: "HasPrefix s p \<longleftrightarrow> (\<exists>b. s = p @ b)"
  unfolding HasPrefix_def
  by (metis append_eq_conv_conj append_take_drop_id length_append le_add1)

lemma Index_bounds: "- 1 \<le> Index s sub"
  by (induction s) (auto simp: Let_def)

lemma Index_nonneg_iff: "0 \<le> Index s sub \<longleftrightarrow> (\<exists>a b. s = a @ sub @ b)"
proof (induction s)
  case Nil
  then show ?case by auto
next
  case (Cons c cs)
  show ?case
  proof (cases "HasPrefix (c # cs) sub")
    case True
    then obtain b where "c # cs = sub @ b" by (auto simp: HasPrefix_iff)
    then have "c # cs = [] @ sub @ b" by simp
    with True show ?thesis by (metis Index.simps(2) order_refl)
  next
    case False
    have "(\<exists>a b. c # cs = a @ sub @ b) \<longleftrightarrow> (\<exists>a b. cs = a @ sub @ b)"
    proof
      assume "\<exists>a b. c # cs = a @ sub @ b"
      then obtain a b where ab: "c # cs = a @ sub @ b" by blast
      show "\<exists>a b. cs = a @ sub @ b"
      proof (cases a)
        case Nil
        with ab False show ?thesis by (auto simp: HasPrefix_iff)
      next
        case (Cons x a')
        with ab show ?thesis by auto
      qed
    next
      assume "\<exists>a b. cs = a @ sub @ b"
      then obtain a b where "cs = a @ sub @ b" by blast
      then have "c # cs = (c # a) @ sub @ b" by simp
      then show "\<exists>a b. c # cs = a @ sub @ b" by blast
    qed
    with False Cons show ?thesis by (auto simp: Let_def)
  qed
qed

lemma Contains_iff: "Contains s sub \<longleftrightarrow> (\<exists>a b. s = a @ sub @ b)"
  by (simp add: Contains_def Index_nonneg_iff)

lemma HasPrefix_char: "HasPrefix (x # xs) [c] \<longleftrightarrow> x = c"
  by (auto simp: HasPrefix_def)

lemma Index_char:
  "Index s [c] = (if c \<in> set s then int (length (takeWhile (\<lambda>x. x \<noteq> c) s)) else - 1)"
  by (induction s) (auto simp: HasPrefix_char Let_def)

lemma takeWhile_all: "c \<notin> set s \<Longrightarrow> takeWhile (\<lambda>x. x \<noteq> c) s = s"
  by (induction s) auto

lemma length_takeWhile_less_mem:
  "c \<in> set s \<Longrightarrow> length (takeWhile (\<lambda>x. x \<noteq> c) s) < length s"
  by (induction s) auto

lemma LastIndex_char:
  "LastIndex s [c] =
     (if c \<in> set s then int (length s) - 1 - int (length (takeWhile (\<lambda>x. x \<noteq> c) (rev s)))
      else - 1)"
proof (induction s)
  case Nil
  then show ?case by simp
next
  case (Cons a s)
  show ?case
  proof (cases "c \<in> set s")
    case True
    then have "length (takeWhile (\<lambda>x. x \<noteq> c) (rev s)) < length s"
      using length_takeWhile_less_mem [of c "rev s"] by simp
    with True Cons show ?thesis by (simp add: Let_def takeWhile_append)
  next
    case False
    then have "takeWhile (\<lambda>x. x \<noteq> c) (rev s) = rev s"
      using takeWhile_all [of c "rev s"] by simp
    with False Cons show ?thesis by (auto simp: Let_def takeWhile_append HasPrefix_char)
  qed
qed

lemma Contains_char: "Contains s [c] \<longleftrightarrow> c \<in> set s"
  by (simp add: Contains_def Index_char)

lemma Split_not_Nil: "Split s sep \<noteq> []"
  by (induction s) (auto split: list.splits)

lemma Split_pieces: "p \<in> set (Split s sep) \<Longrightarrow> sep \<notin> set p"
  by (induction s arbitrary: p) (auto split: list.splits if_splits)

lemma concat_Split: "concat (Split s sep) = filter (\<lambda>c. c \<noteq> sep) s"
  by (induction s) (auto split: list.splits)

lemma length_Split: "length (Split s sep) = Suc (count_list s sep)"
  by (induction s) (auto split: list.splits)

lemma SplitN_2:
  "SplitN s sep 2 =
     takeWhile (\<lambda>c. c \<noteq> sep) s #
       (if sep \<in> set s then [tl (dropWhile (\<lambda>c. c \<noteq> sep) s)] else [])"
  by (auto simp: numeral_2_eq_2 takeWhile_all)

lemma last_nonempty_append:
  "last_nonempty (ps @ qs) = (if last_nonempty ps \<noteq> [] then last_nonempty ps else last_nonempty qs)"
  by (induction ps) auto

lemma last_nonempty_rev:
  "last_nonempty (rev ps) =
     (case filter (\<lambda>p. p \<noteq> []) ps of [] \<Rightarrow> [] | x # xs \<Rightarrow> last (x # xs))"
  by (induction ps rule: rev_induct) (auto simp: last_nonempty_append split: list.splits)

section \<open>Slug validation in \<open>ParseURL\<close>\<close>

text \<open>
  Claim C3. Let \<open>u\<close> be the URL with its query string stripped (everything from the first
  \<open>?\<close> on) and \<open>slug\<close> the last non-empty piece of \<open>u\<close> split at \<open>/\<close>. If \<open>slug\<close> is empty,
  or contains a \<open>.\<close>, or \<open>u\<close> does not contain \<open>/talks/\<close>, then \<open>ParseURL\<close> returns the
  "invalid TED talk URL" error and leaves the parser state as it was: no request has been
  issued (and nothing stored or printed).
\<close>

theorem ParseURL_invalid_identifier:
  fixes w :: "'n world"
  assumes "u = takeWhile (\<lambda>c. c \<noteq> CHR ''?'') url"
    and "slug = last_nonempty (rev (Split u (CHR ''/'')))"
    and "slug = [] \<or> Contains slug ''.'' \<or> \<not> Contains u ''/talks/''"
  shows "ParseURL w st url = (Returns (Inl InvalidTalkURL), st)"
  using assms by (auto simp: ParseURL_def SplitN_2 Let_def)

theorem ParseURL_invalid_identifier_witness:
  "Contains ''www.ted.com'' ''.'' \<and>
   ParseURL blank_world New ''https://www.ted.com/'' = (Returns (Inl InvalidTalkURL), New) \<and>
   \<not> Contains ''not-a-ted-url'' ''/talks/'' \<and>
   ParseURL blank_world New ''not-a-ted-url'' = (Returns (Inl InvalidTalkURL), New) \<and>
   last_nonempty (rev (Split ''//'' (CHR ''/''))) = [] \<and>
   ParseURL blank_world New ''//?q=/talks/x'' = (Returns (Inl InvalidTalkURL), New)"
proof -
  have a: "Contains ''www.ted.com'' ''.''"
    by (simp add: Contains_char)
  have b: "\<not> Contains ''not-a-ted-url'' ''/talks/''"
    by (simp add: Contains_def HasPrefix_def)
  have c: "last_nonempty (rev (Split ''//'' (CHR ''/''))) = []"
    by simp
  show ?thesis
    using a b c
      ParseURL_invalid_identifier [of "''https://www.ted.com/''" "''https://www.ted.com/''"
        "''www.ted.com''" blank_world New]
      ParseURL_invalid_identifier [of "''not-a-ted-url''" "''not-a-ted-url''"
        "''not-a-ted-url''" blank_world New]
      ParseURL_invalid_identifier [of "''//''" "''//?q=/talks/x''" "[]" blank_world New]
    by simp
qed

section \<open>Embedded-script extraction\<close>

lemma rev_dropWhile_rev:
  "rev (dropWhile P (rev s)) = take (length s - length (takeWhile P (rev s))) s"
  by (simp add: dropWhile_eq_drop rev_drop)

lemma takeWhile_take:
  "length (takeWhile P xs) < n \<Longrightarrow> takeWhile P (take n xs) = takeWhile P xs"
  by (induction xs arbitrary: n) (auto simp: take_Cons split: nat.splits)

lemma dropWhile_take_none:
  "n \<le> length (takeWhile P xs) \<Longrightarrow> dropWhile P (take n xs) = []"
  by (induction xs arbitrary: n) (auto simp: take_Cons split: nat.splits if_splits)

lemma Slice_nat:
  "i \<le> j \<Longrightarrow> j \<le> length s \<Longrightarrow> Slice s (int i) (int j) = Returns (take (j - i) (drop i s))"
  by (simp add: Slice_def nat_diff_distrib')

lemma Index_char_absent: "Index s [c] = - 1 \<longleftrightarrow> c \<notin> set s"
  by (simp add: Index_char)

lemma LastIndex_char_absent: "LastIndex s [c] = - 1 \<longleftrightarrow> c \<notin> set s"
  using length_takeWhile_less_mem [of c "rev s"] by (auto simp: LastIndex_char)

lemma find_append:
  "find P (xs @ ys) = (case find P xs of None \<Rightarrow> find P ys | Some x \<Rightarrow> Some x)"
  by (induction xs) auto

lemma Slice_json_text:
  assumes "Index text ''{'' \<noteq> - 1" and "LastIndex text ''}'' \<noteq> - 1"
    and "Index text ''{'' \<le> LastIndex text ''}'' + 1"
  shows "Slice text (Index text ''{'') (LastIndex text ''}'' + 1) = Returns (spec_json_text text)"
proof -
  let ?P = "\<lambda>c. c \<noteq> CHR ''{''" and ?Q = "\<lambda>c. c \<noteq> CHR ''}''"
  from assms(1) have o: "CHR ''{'' \<in> set text" and i: "Index text ''{'' = int (length (takeWhile ?P text))"
    by (auto simp: Index_char split: if_splits)
  from assms(2) have c: "CHR ''}'' \<in> set text"
    and j: "LastIndex text ''}'' = int (length text) - 1 - int (length (takeWhile ?Q (rev text)))"
    by (auto simp: LastIndex_char split: if_splits)
  let ?i = "length (takeWhile ?P text)" and ?k = "length (takeWhile ?Q (rev text))"
  have k: "?k < length text"
    using length_takeWhile_less_mem [of "CHR ''}''" "rev text"] c by simp
  have le: "?i \<le> length text - ?k"
    using assms(3) i j k by simp
  have end1: "LastIndex text ''}'' + 1 = int (length text - ?k)"
    using j k by simp
  have sl: "Slice text (Index text ''{'') (LastIndex text ''}'' + 1) =
      Returns (take (length text - ?k - ?i) (drop ?i text))"
    unfolding i end1 using le by (intro Slice_nat) simp_all
  have "spec_json_text text = dropWhile ?P (take (length text - ?k) text)"
    by (simp add: spec_json_text_def rev_dropWhile_rev)
  also have "\<dots> = take (length text - ?k - ?i) (drop ?i text)"
  proof (cases "?i < length text - ?k")
    case True
    then have "dropWhile ?P (take (length text - ?k) text) =
        drop ?i (take (length text - ?k) text)"
      by (simp add: dropWhile_eq_drop takeWhile_take)
    then show ?thesis by (simp add: drop_take)
  next
    case False
    with le have "?i = length text - ?k" by simp
    then show ?thesis using dropWhile_take_none [of "length text - ?k" "?P" "text"] by simp
  qed
  finally show ?thesis using sl by simp
qed

lemma add_formats_fold: "add_formats data talk = fold add_h264 (data_entries data) talk"
  by (simp add: add_formats_def data_entries_def split: list.splits)

lemma script_callback_panics:
  "slice_panics (Text w s) \<Longrightarrow> script_callback w st s talk = (Panics SliceBoundsOutOfRange, st)"
  by (simp add: slice_panics_def script_callback_def Let_def Slice_def del: Index.simps LastIndex.simps)

lemma script_callback_returns:
  assumes "\<not> slice_panics (Text w s)"
  shows "\<exists>st'. script_callback w st s talk =
           (Returns (fold add_h264 (spec_script_entries w s) talk), st')"
proof (cases "Contains (Text w s) ''talkPage.init'' \<and> Index (Text w s) ''{'' \<noteq> - 1 \<and>
    LastIndex (Text w s) ''}'' \<noteq> - 1")
  case True
  with assms have le: "Index (Text w s) ''{'' \<le> LastIndex (Text w s) ''}'' + 1"
    by (simp add: slice_panics_def)
  from True have mem: "CHR ''{'' \<in> set (Text w s)" "CHR ''}'' \<in> set (Text w s)"
    by (simp_all add: Index_char_absent LastIndex_char_absent)
  show ?thesis
    using True mem Slice_json_text [OF _ _ le]
    by (simp add: script_callback_def spec_script_entries_def Let_def add_formats_fold
        split: option.splits del: Index.simps LastIndex.simps)
next
  case False
  then have "spec_script_entries w s = []"
    by (auto simp: spec_script_entries_def Let_def Index_char_absent LastIndex_char_absent)
  with False show ?thesis
    by (auto simp: script_callback_def Let_def simp del: Index.simps LastIndex.simps)
qed

lemma each_script_panics:
  "\<exists>s \<in> set ss. slice_panics (Text w s) \<Longrightarrow>
   \<exists>st'. each_script w st ss talk = (Panics SliceBoundsOutOfRange, st')"
proof (induction ss arbitrary: st talk)
  case Nil
  then show ?case by simp
next
  case (Cons s ss)
  show ?case
  proof (cases "slice_panics (Text w s)")
    case True
    then show ?thesis by (simp add: script_callback_panics)
  next
    case False
    with Cons.prems have rest: "\<exists>s \<in> set ss. slice_panics (Text w s)" by simp
    from False obtain st1 where
      "script_callback w st s talk = (Returns (fold add_h264 (spec_script_entries w s) talk), st1)"
      using script_callback_returns [of w s st talk] by auto
    then show ?thesis using Cons.IH [OF rest] by simp
  qed
qed

lemma each_script_returns:
  "\<forall>s \<in> set ss. \<not> slice_panics (Text w s) \<Longrightarrow>
   \<exists>st'. each_script w st ss talk =
     (Returns (fold add_h264 (concat (map (spec_script_entries w) ss)) talk), st')"
proof (induction ss arbitrary: st talk)
  case Nil
  then show ?case by simp
next
  case (Cons s ss)
  then have "\<not> slice_panics (Text w s)" by simp
  then obtain st1 where
    "script_callback w st s talk = (Returns (fold add_h264 (spec_script_entries w s) talk), st1)"
    using script_callback_returns [of w s st talk] by auto
  then show ?case using Cons by simp
qed

lemma fold_add_h264_formats:
  "VideoFormats (fold add_h264 hs talk) =
     VideoFormats talk @
       map (\<lambda>h. \<lparr>Quality = h264_Quality h, FormatURL = h264_URL h, Size = h264_Size h\<rparr>) hs"
  by (induction hs arbitrary: talk) (auto simp: add_h264_def)

lemma fold_add_h264_urls:
  "lookup (VideoURLs (fold add_h264 hs talk)) q =
     (case find (\<lambda>h. h264_Quality h = q) (rev hs) of
        Some h \<Rightarrow> Some (h264_URL h)
      | None \<Rightarrow> lookup (VideoURLs talk) q)"
proof (induction hs rule: rev_induct)
  case Nil
  then show ?case by simp
next
  case (snoc h hs)
  have "lookup (VideoURLs (add_h264 h t)) q =
      (if h264_Quality h = q then Some (h264_URL h) else lookup (VideoURLs t) q)" for t
    by (simp add: add_h264_def lookup_def split: option.splits)
  with snoc show ?case by simp
qed


text \<open>\<open>spec_json_text\<close> is the text between the first \<open>{\<close> and the last \<open>}\<close>, both
  included.\<close>

lemma spec_json_text_between:
  assumes "text = a @ CHR ''{'' # m @ CHR ''}'' # b"
    and "CHR ''{'' \<notin> set a" and "CHR ''}'' \<notin> set b"
  shows "spec_json_text text = CHR ''{'' # m @ [CHR ''}'']"
proof -
  have "dropWhile (\<lambda>c. c \<noteq> CHR ''}'') (rev text) = CHR ''}'' # rev m @ CHR ''{'' # rev a"
    using assms(1,3) by (auto simp: dropWhile_append3)
  then show ?thesis
    using assms(2) by (auto simp: spec_json_text_def dropWhile_append3)
qed

subsection \<open>The slice panic\<close>

text \<open>
  Claim C10. Some markup documents make the extraction panic: when a script element of the
  document has the marker \<open>talkPage.init\<close> and both braces, and its last \<open>}\<close> stands more
  than one position before its first \<open>{\<close>, then \<open>text[start : end+1]\<close> has
  \<open>start > end+1\<close> and \<open>extractVideoURLs\<close> ends in a slice-bounds panic (the code checks
  only that neither index is \<open>-1\<close>). The witness is such a document.
\<close>

theorem extractVideoURLs_slice_panic:
  assumes "s \<in> set (Find w doc ''script'')"
    and "Contains (Text w s) ''talkPage.init''"
    and "Index (Text w s) ''{'' \<noteq> - 1" and "LastIndex (Text w s) ''}'' \<noteq> - 1"
    and "LastIndex (Text w s) ''}'' + 1 < Index (Text w s) ''{''"
  shows "\<exists>st'. extractVideoURLs w st doc talk = (Panics SliceBoundsOutOfRange, st')"
proof -
  from assms have "\<exists>s \<in> set (Find w doc ''script''). slice_panics (Text w s)"
    unfolding slice_panics_def by blast
  from each_script_panics [OF this, of st talk] show ?thesis
    by (auto simp: extractVideoURLs_def)
qed

theorem extractVideoURLs_slice_panic_witness:
  "2 \<in> set (Find panic_world 0 ''script'') \<and>
   Contains (Text panic_world 2) ''talkPage.init'' \<and>
   Index (Text panic_world 2) ''{'' = 16 \<and>
   LastIndex (Text panic_world 2) ''}'' = 0 \<and>
   (\<exists>st'. extractVideoURLs panic_world New 0 zero_Talk = (Panics SliceBoundsOutOfRange, st'))"
proof -
  have a: "2 \<in> set (Find panic_world 0 ''script'')"
    by (simp add: panic_world_def)
  have t: "Text panic_world 2 = ''} talkPage.init({''"
    by (simp add: panic_world_def)
  have b: "Contains (Text panic_world 2) ''talkPage.init''"
    unfolding t by (simp add: Contains_def HasPrefix_def)
  have c: "Index (Text panic_world 2) ''{'' = 16"
    unfolding t by (simp add: HasPrefix_def)
  have d: "LastIndex (Text panic_world 2) ''}'' = 0"
    unfolding t by (simp add: HasPrefix_def)
  show ?thesis
    using a b c d extractVideoURLs_slice_panic [of 2 panic_world 0 New zero_Talk]
    by simp
qed

subsection \<open>What the extraction collects\<close>

text \<open>
  Claim C6, amended. The extraction visits every script element of the document in
  document order. From every element that has the marker \<open>talkPage.init\<close> (not from the
  first such element only) it decodes the text from the first \<open>{\<close> to the last \<open>}\<close>
  inclusive, and for each decoded h264 entry, in the order of the JSON and of the
  scripts, it appends a \<open>VideoFormat\<close> with the entry's quality, file and size and sets
  \<open>VideoURLs[quality] = file\<close> (so the last entry of a quality gives its URL). This holds
  for every document none of whose scripts runs into the slice panic of C10.
\<close>

theorem extractVideoURLs_every_matching_script:
  assumes "\<forall>s \<in> set (Find w doc ''script''). \<not> slice_panics (Text w s)"
  shows "\<exists>talk' st'.
     extractVideoURLs w st doc talk = (Returns (None, talk'), st') \<and>
     VideoFormats talk' =
       VideoFormats talk @
         map (\<lambda>h. \<lparr>Quality = h264_Quality h, FormatURL = h264_URL h, Size = h264_Size h\<rparr>)
           (concat (map (spec_script_entries w) (Find w doc ''script''))) \<and>
     (\<forall>q. lookup (VideoURLs talk') q =
        (case find (\<lambda>h. h264_Quality h = q)
                (rev (concat (map (spec_script_entries w) (Find w doc ''script'')))) of
           Some h \<Rightarrow> Some (h264_URL h)
         | None \<Rightarrow> lookup (VideoURLs talk) q))"
proof -
  from each_script_returns [OF assms, of st talk] obtain st' where
    "each_script w st (Find w doc ''script'') talk =
       (Returns (fold add_h264 (concat (map (spec_script_entries w) (Find w doc ''script''))) talk),
        st')"
    by blast
  then show ?thesis
    by (simp add: extractVideoURLs_def fold_add_h264_formats fold_add_h264_urls)
qed

lemma two_scripts_entries:
  "spec_script_entries two_scripts_world 2 =
     [\<lparr>h264_Quality = ''1080p'', h264_Size = 1000000, h264_URL = ''u1''\<rparr>,
      \<lparr>h264_Quality = ''720p'', h264_Size = 500000, h264_URL = ''u2''\<rparr>]"
  "spec_script_entries two_scripts_world 3 =
     [\<lparr>h264_Quality = ''480p'', h264_Size = 0, h264_URL = ''u3''\<rparr>]"
  by (simp_all add: spec_script_entries_def two_scripts_world_def blank_world_def no_control_byte_def Contains_def
      HasPrefix_def spec_json_text_def data_entries_def script_with_def)

lemma two_scripts_safe:
  "\<not> slice_panics (Text two_scripts_world 2)" "\<not> slice_panics (Text two_scripts_world 3)"
  by (simp_all add: slice_panics_def two_scripts_world_def blank_world_def no_control_byte_def HasPrefix_def)

theorem extractVideoURLs_every_matching_script_witness:
  "Find two_scripts_world 0 ''script'' = [2, 3] \<and>
   \<not> slice_panics (Text two_scripts_world 2) \<and> \<not> slice_panics (Text two_scripts_world 3) \<and>
   (\<exists>talk' st'.
      extractVideoURLs two_scripts_world New 0 zero_Talk = (Returns (None, talk'), st') \<and>
      VideoFormats talk' =
        [\<lparr>Quality = ''1080p'', FormatURL = ''u1'', Size = 1000000\<rparr>,
         \<lparr>Quality = ''720p'', FormatURL = ''u2'', Size = 500000\<rparr>,
         \<lparr>Quality = ''480p'', FormatURL = ''u3'', Size = 0\<rparr>] \<and>
      lookup (VideoURLs talk') ''1080p'' = Some ''u1'' \<and>
      lookup (VideoURLs talk') ''720p'' = Some ''u2'' \<and>
      lookup (VideoURLs talk') ''480p'' = Some ''u3'')"
proof -
  have f: "Find two_scripts_world 0 ''script'' = [2, 3]"
    by (simp add: two_scripts_world_def)
  have safe: "\<forall>s \<in> set (Find two_scripts_world 0 ''script''). \<not> slice_panics (Text two_scripts_world s)"
    using two_scripts_safe by (simp add: f)
  from extractVideoURLs_every_matching_script [OF safe, of New zero_Talk]
  obtain talk' st' where
    r: "extractVideoURLs two_scripts_world New 0 zero_Talk = (Returns (None, talk'), st')"
    and v: "VideoFormats talk' =
       VideoFormats zero_Talk @
         map (\<lambda>h. \<lparr>Quality = h264_Quality h, FormatURL = h264_URL h, Size = h264_Size h\<rparr>)
           (concat (map (spec_script_entries two_scripts_world) (Find two_scripts_world 0 ''script'')))"
    and u: "\<And>q. lookup (VideoURLs talk') q =
        (case find (\<lambda>h. h264_Quality h = q)
                (rev (concat (map (spec_script_entries two_scripts_world)
                   (Find two_scripts_world 0 ''script'')))) of
           Some h \<Rightarrow> Some (h264_URL h)
         | None \<Rightarrow> lookup (VideoURLs zero_Talk) q)"
    by blast
  have "VideoFormats talk' =
        [\<lparr>Quality = ''1080p'', FormatURL = ''u1'', Size = 1000000\<rparr>,
         \<lparr>Quality = ''720p'', FormatURL = ''u2'', Size = 500000\<rparr>,
         \<lparr>Quality = ''480p'', FormatURL = ''u3'', Size = 0\<rparr>]"
    using v by (simp add: f two_scripts_entries zero_Talk_def)
  moreover have "lookup (VideoURLs talk') ''1080p'' = Some ''u1''"
    "lookup (VideoURLs talk') ''720p'' = Some ''u2''"
    "lookup (VideoURLs talk') ''480p'' = Some ''u3''"
    by (simp_all add: u f two_scripts_entries)
  ultimately show ?thesis using f two_scripts_safe r by blast
qed

text \<open>
  Claim C6 as stated fails: on the page with two marked scripts the extraction returns the
  formats of both, 1080p, 720p and 480p, while the first marked script alone holds the
  entries for 1080p and 720p only.
\<close>

theorem extractVideoURLs_first_match_only_counterexample:
  "extractVideoURLs two_scripts_world New 0 zero_Talk =
     (Returns (None, zero_Talk
        \<lparr>VideoURLs := Some [''1080p'' \<mapsto> ''u1'', ''720p'' \<mapsto> ''u2'', ''480p'' \<mapsto> ''u3''],
         VideoFormats :=
           [\<lparr>Quality = ''1080p'', FormatURL = ''u1'', Size = 1000000\<rparr>,
            \<lparr>Quality = ''720p'', FormatURL = ''u2'', Size = 500000\<rparr>,
            \<lparr>Quality = ''480p'', FormatURL = ''u3'', Size = 0\<rparr>]\<rparr>), New) \<and>
   spec_first_match_entries two_scripts_world 0 =
     [\<lparr>h264_Quality = ''1080p'', h264_Size = 1000000, h264_URL = ''u1''\<rparr>,
      \<lparr>h264_Quality = ''720p'', h264_Size = 500000, h264_URL = ''u2''\<rparr>]"
proof -
  have c1: "script_callback two_scripts_world st 2 talk =
      (Returns (add_formats (script_with
            [\<lparr>h264_Quality = ''1080p'', h264_Size = 1000000, h264_URL = ''u1''\<rparr>,
             \<lparr>h264_Quality = ''720p'', h264_Size = 500000, h264_URL = ''u2''\<rparr>]) talk), st)" for st talk
    by (simp add: script_callback_def two_scripts_world_def blank_world_def no_control_byte_def Contains_def
        HasPrefix_def Slice_def)
  have c2: "script_callback two_scripts_world st 3 talk =
      (Returns (add_formats (script_with
         [\<lparr>h264_Quality = ''480p'', h264_Size = 0, h264_URL = ''u3''\<rparr>]) talk), st)" for st talk
    by (simp add: script_callback_def two_scripts_world_def blank_world_def no_control_byte_def Contains_def
        HasPrefix_def Slice_def)
  have f: "Find two_scripts_world 0 ''script'' = [2, 3]"
    by (simp add: two_scripts_world_def)
  have m: "Contains (Text two_scripts_world 2) ''talkPage.init''"
    by (simp add: two_scripts_world_def blank_world_def no_control_byte_def Contains_def HasPrefix_def)
  have "extractVideoURLs two_scripts_world New 0 zero_Talk =
     (Returns (None, zero_Talk
        \<lparr>VideoURLs := Some [''1080p'' \<mapsto> ''u1'', ''720p'' \<mapsto> ''u2'', ''480p'' \<mapsto> ''u3''],
         VideoFormats :=
           [\<lparr>Quality = ''1080p'', FormatURL = ''u1'', Size = 1000000\<rparr>,
            \<lparr>Quality = ''720p'', FormatURL = ''u2'', Size = 500000\<rparr>,
            \<lparr>Quality = ''480p'', FormatURL = ''u3'', Size = 0\<rparr>]\<rparr>), New)"
    by (simp add: extractVideoURLs_def f c1 c2 add_formats_def script_with_def add_h264_def
        zero_Talk_def)
  moreover have "spec_first_match_entries two_scripts_world 0 =
     [\<lparr>h264_Quality = ''1080p'', h264_Size = 1000000, h264_URL = ''u1''\<rparr>,
      \<lparr>h264_Quality = ''720p'', h264_Size = 500000, h264_URL = ''u2''\<rparr>]"
    by (simp add: spec_first_match_entries_def f m two_scripts_entries)
  ultimately show ?thesis by simp
qed

section \<open>The structured-API path\<close>

lemma english_video_urls_find:
  "english_video_urls subs m =
     (case find (\<lambda>sub. InternalLanguageCode sub = ''en'') subs of
        None \<Rightarrow> m
      | Some sub \<Rightarrow> (m(''720p'' \<mapsto> Low sub))(''1080p'' \<mapsto> High sub))"
  by (induction subs) auto

lemma subtitle_urls_snoc:
  "subtitle_urls w (subs @ [sub]) m =
     (if Low sub \<noteq> [] then (subtitle_urls w subs m)(ToLower w (InternalLanguageCode sub) \<mapsto> Low sub)
      else subtitle_urls w subs m)"
  by (induction subs arbitrary: m) auto

lemma subtitle_urls_find:
  "subtitle_urls w subs m k =
     (case find (\<lambda>sub. Low sub \<noteq> [] \<and> ToLower w (InternalLanguageCode sub) = k) (rev subs) of
        None \<Rightarrow> m k
      | Some sub \<Rightarrow> Some (Low sub))"
  by (induction subs rule: rev_induct) (auto simp: subtitle_urls_snoc)

lemma parseWithGraphQL_Inr:
  assumes "parseWithGraphQL w st slug url = (Returns (Inr talk), st')"
  shows "\<exists>node st2. graphql_first_node w st slug url = (Returns (Inr node), st2) \<and>
     VideoURLs talk = Some (english_video_urls (SubtitledDownloads node) Map.empty) \<and>
     SubtitleURLs talk = Some (subtitle_urls w (SubtitledDownloads node) Map.empty) \<and>
     VideoFormats talk = [] \<and> URL talk = url"
  using assms
  by (auto simp: parseWithGraphQL_def Let_def client_Get_def do_request_def zero_Talk_def
      split: prod.splits outcome.splits sum.splits option.splits if_splits)

text \<open>When the page fetch of line 422 fails and leaves \<open>resp\<close> nil, the function does not
  return its error: it panics in the deferred close.\<close>

lemma parseWithGraphQL_nil_response:
  assumes "graphql_first_node w st slug url = (Returns (Inr node), st2)"
    and "\<not> NewRequest_ok w url \<or>
         transport w (requests st2) (Get DefaultClient url) = None \<and>
         \<not> failed_with_response w (requests st2) (Get DefaultClient url)"
  shows "\<exists>st3. parseWithGraphQL w st slug url = (Panics NilPointerDereference, st3)"
  using assms
  by (auto simp: parseWithGraphQL_def Let_def client_Get_def do_request_def)

lemma graphql_first_node_Inr:
  assumes "graphql_first_node w st slug url = (Returns (Inr node), st2)"
  shows "\<exists>resp raw result nodes.
     transport w (requests st) (Post (GraphqlURL st) slug url) = Some resp \<and>
     Body resp = Some raw \<and> Unmarshal_graphql w raw = Some result \<and>
     Errors result = [] \<and> Nodes result = node # nodes"
  using assms
  by (auto simp: graphql_first_node_def client_Get_def do_request_def
      split: if_splits option.splits outcome.splits list.splits)

text \<open>
  Claim C4. On the structured-API path, when the response decodes to a result whose first
  node has, among its subtitled downloads, a first entry \<open>sub\<close> with language code \<open>"en"\<close>,
  the talk that \<open>parseWithGraphQL\<close> returns has \<open>VideoURLs["720p"]\<close> equal to the \<open>low\<close> URL
  of \<open>sub\<close> and \<open>VideoURLs["1080p"]\<close> equal to its \<open>high\<close> URL.
\<close>

theorem parseWithGraphQL_english_video_urls:
  assumes "transport w (requests st) (Post (GraphqlURL st) slug url) = Some resp"
    and "Body resp = Some raw"
    and "Unmarshal_graphql w raw = Some result"
    and "Nodes result = node # nodes"
    and "find (\<lambda>sub. InternalLanguageCode sub = ''en'') (SubtitledDownloads node) = Some sub"
    and "parseWithGraphQL w st slug url = (Returns (Inr talk), st')"
  shows "lookup (VideoURLs talk) ''720p'' = Some (Low sub) \<and>
         lookup (VideoURLs talk) ''1080p'' = Some (High sub)"
proof -
  from parseWithGraphQL_Inr [OF assms(6)] obtain node' st2 where
    n: "graphql_first_node w st slug url = (Returns (Inr node'), st2)"
    and v: "VideoURLs talk = Some (english_video_urls (SubtitledDownloads node') Map.empty)"
    by blast
  from graphql_first_node_Inr [OF n] assms(1-4) have "node' = node" by auto
  with v assms(5) show ?thesis
    by (simp add: lookup_def english_video_urls_find)
qed

text \<open>
  Claim C5, amended. On the structured-API path, for every key \<open>k\<close> the returned talk has
  \<open>SubtitleURLs[k]\<close> equal to the \<open>low\<close> URL of the last subtitled-downloads entry of the
  first node whose \<open>low\<close> URL is non-empty and whose lowercased language code is \<open>k\<close>, and
  no entry for \<open>k\<close> when there is no such entry. Entries with an empty \<open>low\<close> URL add
  nothing, and \<open>VideoURLs\<close> plays no part.
\<close>

theorem parseWithGraphQL_subtitle_urls:
  assumes "transport w (requests st) (Post (GraphqlURL st) slug url) = Some resp"
    and "Body resp = Some raw"
    and "Unmarshal_graphql w raw = Some result"
    and "Nodes result = node # nodes"
    and "parseWithGraphQL w st slug url = (Returns (Inr talk), st')"
  shows "lookup (SubtitleURLs talk) k =
     (case find (\<lambda>sub. Low sub \<noteq> [] \<and> ToLower w (InternalLanguageCode sub) = k)
             (rev (SubtitledDownloads node)) of
        None \<Rightarrow> None
      | Some sub \<Rightarrow> Some (Low sub))"
proof -
  from parseWithGraphQL_Inr [OF assms(5)] obtain node' st2 where
    n: "graphql_first_node w st slug url = (Returns (Inr node'), st2)"
    and v: "SubtitleURLs talk = Some (subtitle_urls w (SubtitledDownloads node') Map.empty)"
    by blast
  from graphql_first_node_Inr [OF n] assms(1-4) have "node' = node" by auto
  with v show ?thesis
    by (simp add: lookup_def subtitle_urls_find)
qed

subsection \<open>The structured-API path on the example worlds\<close>

lemma graphql_world_parse:
  "parseWithGraphQL (graphql_world subs) New ''x'' ''https://www.ted.com/talks/x'' =
     (Returns (Inr (zero_Talk
        \<lparr>URL := ''https://www.ted.com/talks/x'',
         VideoURLs := Some (english_video_urls subs Map.empty),
         SubtitleURLs := Some (subtitle_urls (graphql_world subs) subs Map.empty)\<rparr>)),
      New\<lparr>requests := [Post ''https://www.ted.com/graphql'' ''x'' ''https://www.ted.com/talks/x'',
                         Get DefaultClient ''https://www.ted.com/talks/x'']\<rparr>)"
  by (simp add: parseWithGraphQL_def graphql_first_node_def client_Get_def do_request_def storeRawResponse_def
      debugPrint_def New_def graphql_world_def graphql_node_def blank_world_def no_control_byte_def zero_Talk_def
      SelText_def First_def)

lemma graphql_world_fields:
  "transport (graphql_world subs) (requests New)
     (Post (GraphqlURL New) ''x'' ''https://www.ted.com/talks/x'') =
       Some \<lparr>StatusCode = 200, Body = Some ''g''\<rparr>"
  "Body \<lparr>StatusCode = 200, Body = Some ''g''\<rparr> = Some ''g''"
  "Unmarshal_graphql (graphql_world subs) ''g'' =
     Some \<lparr>Nodes = [graphql_node subs], Errors = []\<rparr>"
  "Nodes \<lparr>Nodes = [graphql_node subs], Errors = []\<rparr> = graphql_node subs # []"
  "SubtitledDownloads (graphql_node subs) = subs"
  "ToLower (graphql_world subs) = (\<lambda>s. s)"
  by (simp_all add: graphql_world_def blank_world_def no_control_byte_def graphql_node_def)

theorem parseWithGraphQL_english_video_urls_witness:
  "find (\<lambda>sub. InternalLanguageCode sub = ''en'') [sub_zh, sub_en, sub_en2] = Some sub_en \<and>
   (\<exists>talk st'.
      parseWithGraphQL (graphql_world [sub_zh, sub_en, sub_en2]) New ''x''
        ''https://www.ted.com/talks/x'' = (Returns (Inr talk), st') \<and>
      lookup (VideoURLs talk) ''720p'' = Some ''A'' \<and>
      lookup (VideoURLs talk) ''1080p'' = Some ''H'')"
proof -
  let ?subs = "[sub_zh, sub_en, sub_en2]"
  have f: "find (\<lambda>sub. InternalLanguageCode sub = ''en'') ?subs = Some sub_en"
    by (simp add: sub_zh_def sub_en_def)
  then have f': "find (\<lambda>sub. InternalLanguageCode sub = ''en'')
      (SubtitledDownloads (graphql_node ?subs)) = Some sub_en"
    by (simp only: graphql_world_fields)
  obtain talk st' where
    p: "parseWithGraphQL (graphql_world ?subs) New ''x'' ''https://www.ted.com/talks/x'' =
          (Returns (Inr talk), st')"
    using graphql_world_parse by blast
  have "lookup (VideoURLs talk) ''720p'' = Some (Low sub_en) \<and>
        lookup (VideoURLs talk) ''1080p'' = Some (High sub_en)"
    using parseWithGraphQL_english_video_urls
      [OF graphql_world_fields(1) graphql_world_fields(2) graphql_world_fields(3)
          graphql_world_fields(4) f' p] .
  then show ?thesis using f p by (auto simp: sub_en_def)
qed

theorem parseWithGraphQL_subtitle_urls_witness:
  "\<exists>talk st'.
      parseWithGraphQL (graphql_world [sub_en, sub_zh]) New ''x''
        ''https://www.ted.com/talks/x'' = (Returns (Inr talk), st') \<and>
      lookup (SubtitleURLs talk) ''en'' = Some ''A'' \<and>
      lookup (SubtitleURLs talk) ''zh-cn'' = Some ''B'' \<and>
      lookup (SubtitleURLs talk) ''fr'' = None"
proof -
  let ?subs = "[sub_en, sub_zh]"
  obtain talk st' where
    p: "parseWithGraphQL (graphql_world ?subs) New ''x'' ''https://www.ted.com/talks/x'' =
          (Returns (Inr talk), st')"
    using graphql_world_parse by blast
  note k = parseWithGraphQL_subtitle_urls
      [OF graphql_world_fields(1) graphql_world_fields(2) graphql_world_fields(3)
          graphql_world_fields(4) p]
  have "lookup (SubtitleURLs talk) ''en'' = Some ''A''"
    "lookup (SubtitleURLs talk) ''zh-cn'' = Some ''B''"
    "lookup (SubtitleURLs talk) ''fr'' = None"
    by (simp_all add: k graphql_world_fields sub_en_def sub_zh_def)
  with p show ?thesis by blast
qed

text \<open>
  Claim C5 as stated fails when two entries share a lowercased code: with the entries
  \<open>{en, low A}\<close> and \<open>{en, low C}\<close> the first has a non-empty \<open>low\<close> URL \<open>A\<close>, and the
  returned talk has \<open>SubtitleURLs["en"] = C\<close>.
\<close>

theorem parseWithGraphQL_subtitle_urls_counterexample:
  "parseWithGraphQL (graphql_world [sub_en, sub_en2]) New ''x'' ''https://www.ted.com/talks/x'' =
     (Returns (Inr (zero_Talk
        \<lparr>URL := ''https://www.ted.com/talks/x'',
         VideoURLs := Some [''720p'' \<mapsto> ''A'', ''1080p'' \<mapsto> ''H''],
         SubtitleURLs := Some [''en'' \<mapsto> ''C'']\<rparr>)),
      New\<lparr>requests := [Post ''https://www.ted.com/graphql'' ''x'' ''https://www.ted.com/talks/x'',
                         Get DefaultClient ''https://www.ted.com/talks/x'']\<rparr>) \<and>
   Low sub_en = ''A'' \<and> ToLower (graphql_world [sub_en, sub_en2]) (InternalLanguageCode sub_en) = ''en''"
  by (simp add: graphql_world_parse graphql_world_fields sub_en_def sub_en2_def)

text \<open>
  Claim C1 at a node without subtitled downloads: the structured-API path succeeds and
  \<open>ParseURL\<close> returns a talk whose \<open>VideoURLs\<close> and \<open>SubtitleURLs\<close> are empty maps and whose
  \<open>VideoFormats\<close> is empty, where the claim asks for an error.
\<close>

theorem ParseURL_empty_talk_from_graphql:
  "ParseURL (graphql_world []) New ''https://www.ted.com/talks/x'' =
     (Returns (Inr (zero_Talk
        \<lparr>URL := ''https://www.ted.com/talks/x'',
         VideoURLs := Some Map.empty, SubtitleURLs := Some Map.empty\<rparr>)),
      New\<lparr>requests := [Post ''https://www.ted.com/graphql'' ''x'' ''https://www.ted.com/talks/x'',
                         Get DefaultClient ''https://www.ted.com/talks/x'']\<rparr>)"
proof -
  have s: "SplitN ''https://www.ted.com/talks/x'' (CHR ''?'') 2 = [''https://www.ted.com/talks/x'']"
    by (simp add: SplitN_2)
  have g: "last_nonempty (rev (Split ''https://www.ted.com/talks/x'' (CHR ''/''))) = ''x''"
    by simp
  have c: "Contains ''https://www.ted.com/talks/x'' ''/talks/''" "\<not> Contains ''x'' ''.''"
    by (simp_all add: Contains_def HasPrefix_def)
  have d: "debugPrint New m = New" for m
    by (simp add: debugPrint_def New_def)
  show ?thesis
    by (simp add: ParseURL_def Let_def s g c d graphql_world_parse del: Split.simps)
qed

section \<open>The fallback to the markup path\<close>

lemma requests_debugPrint [simp]: "requests (debugPrint st m) = requests st"
  and GraphqlURL_debugPrint [simp]: "GraphqlURL (debugPrint st m) = GraphqlURL st"
  and Debug_debugPrint [simp]: "Debug (debugPrint st m) = Debug st"
  and RawResponses_debugPrint [simp]: "RawResponses (debugPrint st m) = RawResponses st"
  by (simp_all add: debugPrint_def)

lemma storeRawResponse_Returns:
  "Debug st \<longrightarrow> RawResponses st \<noteq> None \<Longrightarrow> \<exists>st'. storeRawResponse st key data = Returns st'"
  by (auto simp: storeRawResponse_def)

lemma graphql_first_node_causes:
  assumes "NewRequest_ok w (GraphqlURL st)" and "Debug st \<longrightarrow> RawResponses st \<noteq> None"
  shows "transport w (requests st) (Post (GraphqlURL st) slug url) = None \<Longrightarrow>
           \<exists>st2. graphql_first_node w st slug url = (Returns (Inl SendRequestFailed), st2)"
    and "transport w (requests st) (Post (GraphqlURL st) slug url) = Some resp \<Longrightarrow>
         Body resp = Some raw \<Longrightarrow> Unmarshal_graphql w raw = Some result \<Longrightarrow>
         Errors result = e # es \<Longrightarrow>
           \<exists>st2. graphql_first_node w st slug url = (Returns (Inl (GraphQLError (Message e))), st2)"
    and "transport w (requests st) (Post (GraphqlURL st) slug url) = Some resp \<Longrightarrow>
         Body resp = Some raw \<Longrightarrow> Unmarshal_graphql w raw = Some result \<Longrightarrow>
         Errors result = [] \<Longrightarrow> Nodes result = [] \<Longrightarrow>
           \<exists>st2. graphql_first_node w st slug url = (Returns (Inl NoVideoDataFound), st2)"
  using assms
  by (auto simp: graphql_first_node_def client_Get_def do_request_def storeRawResponse_def)

lemma parseWithGraphQL_Inl:
  "graphql_first_node w st slug url = (Returns (Inl e), st2) \<Longrightarrow>
   parseWithGraphQL w st slug url = (Returns (Inl e), st2)"
  by (simp add: parseWithGraphQL_def)

lemma ParseURL_valid:
  assumes "u = takeWhile (\<lambda>c. c \<noteq> CHR ''?'') url"
    and "slug = last_nonempty (rev (Split u (CHR ''/'')))"
    and "slug \<noteq> []" and "\<not> Contains slug ''.''" and "Contains u ''/talks/''"
  shows "ParseURL w st url =
     (case parseWithGraphQL w (debugPrint st (ProcessingSlug slug)) slug url of
        (Panics p, st2) \<Rightarrow> (Panics p, st2)
      | (Returns (Inr talk), st2) \<Rightarrow> (Returns (Inr talk), st2)
      | (Returns (Inl err), st2) \<Rightarrow>
          parseWithHTML w
            (debugPrint (debugPrint st2 (GraphQLParsingFailed err)) FallingBackToHTML) url)"
  using assms
  by (simp add: ParseURL_def SplitN_2 Let_def split: prod.splits outcome.splits sum.splits)

lemma parseWithHTML_extract_not_empty_error:
  "parseWithHTML_extract w st url \<noteq> (Returns (Inl NoVideoOrSubtitleData), st')"
  by (auto simp: parseWithHTML_extract_def Let_def client_Get_def do_request_def
      split: prod.splits option.splits outcome.splits)

lemma parseWithHTML_empty_iff:
  "parseWithHTML w st url = (Returns (Inl NoVideoOrSubtitleData), st') \<longleftrightarrow>
   (\<exists>talk. parseWithHTML_extract w st url = (Returns (Inr talk), st') \<and>
           len_is_zero (VideoURLs talk) \<and> len_is_zero (SubtitleURLs talk))"
  using parseWithHTML_extract_not_empty_error [of w st url st']
  by (auto simp: parseWithHTML_def split: prod.splits outcome.splits sum.splits if_splits)

lemma parseWithHTML_talk_iff:
  "parseWithHTML w st url = (Returns (Inr talk), st') \<longleftrightarrow>
   parseWithHTML_extract w st url = (Returns (Inr talk), st') \<and>
   \<not> (len_is_zero (VideoURLs talk) \<and> len_is_zero (SubtitleURLs talk))"
  by (auto simp: parseWithHTML_def split: prod.splits outcome.splits sum.splits if_splits)

text \<open>
  Claim C2. For a URL that passes the slug validation, when the structured-API call fails
  through a transport error, a non-empty top-level \<open>errors\<close> array or zero result nodes
  (the request was created, and debug capture has a map to write to), \<open>parseWithGraphQL\<close>
  returns an error and \<open>ParseURL\<close> is the markup path \<open>parseWithHTML\<close> on the same URL:
  whatever that path returns is the result. The markup path returns the "no video or
  subtitle data found" error exactly when the page was fetched and parsed and the
  \<open>VideoURLs\<close> and \<open>SubtitleURLs\<close> extracted from it are both empty, and returns the
  extracted talk exactly when they are not both empty.
\<close>

theorem ParseURL_falls_back_to_markup:
  assumes "u = takeWhile (\<lambda>c. c \<noteq> CHR ''?'') url"
    and "slug = last_nonempty (rev (Split u (CHR ''/'')))"
    and "slug \<noteq> []" and "\<not> Contains slug ''.''" and "Contains u ''/talks/''"
    and "NewRequest_ok w (GraphqlURL st)" and "Debug st \<longrightarrow> RawResponses st \<noteq> None"
    and "transport w (requests st) (Post (GraphqlURL st) slug url) = None \<or>
         (\<exists>resp raw result.
            transport w (requests st) (Post (GraphqlURL st) slug url) = Some resp \<and>
            Body resp = Some raw \<and> Unmarshal_graphql w raw = Some result \<and>
            (Errors result \<noteq> [] \<or> Nodes result = []))"
  shows "(\<exists>e st2.
            parseWithGraphQL w (debugPrint st (ProcessingSlug slug)) slug url =
              (Returns (Inl e), st2) \<and>
            ParseURL w st url =
              parseWithHTML w
                (debugPrint (debugPrint st2 (GraphQLParsingFailed e)) FallingBackToHTML) url) \<and>
         (\<forall>s v s'.
            parseWithHTML w s v = (Returns (Inl NoVideoOrSubtitleData), s') \<longleftrightarrow>
            (\<exists>talk. parseWithHTML_extract w s v = (Returns (Inr talk), s') \<and>
                    len_is_zero (VideoURLs talk) \<and> len_is_zero (SubtitleURLs talk))) \<and>
         (\<forall>s v s' talk.
            parseWithHTML w s v = (Returns (Inr talk), s') \<longleftrightarrow>
            parseWithHTML_extract w s v = (Returns (Inr talk), s') \<and>
            \<not> (len_is_zero (VideoURLs talk) \<and> len_is_zero (SubtitleURLs talk)))"
proof -
  let ?st1 = "debugPrint st (ProcessingSlug slug)"
  have ok: "NewRequest_ok w (GraphqlURL ?st1)" "Debug ?st1 \<longrightarrow> RawResponses ?st1 \<noteq> None"
    using assms(6,7) by simp_all
  have "\<exists>e st2. graphql_first_node w ?st1 slug url = (Returns (Inl e), st2)"
    using assms(8)
  proof (elim disjE exE conjE)
    assume "transport w (requests st) (Post (GraphqlURL st) slug url) = None"
    then have "transport w (requests ?st1) (Post (GraphqlURL ?st1) slug url) = None" by simp
    from graphql_first_node_causes(1) [OF ok this] show ?thesis by blast
  next
    fix resp raw result
    assume "transport w (requests st) (Post (GraphqlURL st) slug url) = Some resp"
      and b: "Body resp = Some raw" "Unmarshal_graphql w raw = Some result"
      and c: "Errors result \<noteq> []"
    then have t: "transport w (requests ?st1) (Post (GraphqlURL ?st1) slug url) = Some resp"
      by simp
    from c obtain e es where "Errors result = e # es" by (cases "Errors result") auto
    from graphql_first_node_causes(2) [OF ok t b this] show ?thesis by blast
  next
    fix resp raw result
    assume "transport w (requests st) (Post (GraphqlURL st) slug url) = Some resp"
      and b: "Body resp = Some raw" "Unmarshal_graphql w raw = Some result"
      and c: "Nodes result = []"
    then have t: "transport w (requests ?st1) (Post (GraphqlURL ?st1) slug url) = Some resp"
      by simp
    show ?thesis
    proof (cases "Errors result")
      case Nil
      from graphql_first_node_causes(3) [OF ok t b Nil c] show ?thesis by blast
    next
      case (Cons e es)
      from graphql_first_node_causes(2) [OF ok t b Cons] show ?thesis by blast
    qed
  qed
  then obtain e st2 where "graphql_first_node w ?st1 slug url = (Returns (Inl e), st2)"
    by blast
  then have g: "parseWithGraphQL w ?st1 slug url = (Returns (Inl e), st2)"
    by (rule parseWithGraphQL_Inl)
  have "ParseURL w st url =
      parseWithHTML w (debugPrint (debugPrint st2 (GraphQLParsingFailed e)) FallingBackToHTML) url"
    using ParseURL_valid [OF assms(1-5), of w st] g by simp
  with g show ?thesis
    using parseWithHTML_empty_iff parseWithHTML_talk_iff by blast
qed

subsection \<open>The markup path on the example page\<close>

lemma markup_world_graphql:
  "parseWithGraphQL (markup_world c) New ''x'' ''https://www.ted.com/talks/x'' =
     (Returns (Inl SendRequestFailed),
      New\<lparr>requests := [Post ''https://www.ted.com/graphql'' ''x'' ''https://www.ted.com/talks/x'']\<rparr>)"
  by (simp add: parseWithGraphQL_def graphql_first_node_def client_Get_def do_request_def New_def
      markup_world_def blank_world_def no_control_byte_def)

lemma markup_world_extractVideoURLs:
  "extractVideoURLs (markup_world c) st 0 talk = (Returns (None, talk), st)"
  by (simp add: extractVideoURLs_def markup_world_def blank_world_def no_control_byte_def)

lemma markup_world_extractSubtitleURLs:
  "extractSubtitleURLs (markup_world c) 0 talk =
     (None, talk\<lparr>SubtitleURLs := Some [''en'' \<mapsto> ''https://www.ted.com/talks/subtitles/en'']\<rparr>)"
  by (simp add: extractSubtitleURLs_def anchor_callback_def markup_world_def blank_world_def no_control_byte_def
      HasPrefix_def Let_def)

lemma markup_world_fields:
  "transport (markup_world c) h (Get cl u) = Some \<lparr>StatusCode = c, Body = Some ''p''\<rparr>"
  "NewDocument (markup_world c) ''p'' = Some 0"
  "Find (markup_world c) 0 ''h1'' = [4]" "Find (markup_world c) 0 ''h2'' = [5]"
  "Text (markup_world c) 4 = ''T''" "Text (markup_world c) 5 = ''S''"
  "NewRequest_ok (markup_world c) ''https://www.ted.com/talks/x''"
  by (simp_all add: markup_world_def blank_world_def no_control_byte_def)

lemma markup_world_parseWithHTML:
  assumes "Debug st = False"
  shows "parseWithHTML (markup_world c) st ''https://www.ted.com/talks/x'' =
     (Returns (Inr markup_talk),
      st\<lparr>requests := requests st @ [Get ParserClient ''https://www.ted.com/talks/x'']\<rparr>)"
proof -
  have "parseWithHTML_extract (markup_world c) st ''https://www.ted.com/talks/x'' =
     (Returns (Inr markup_talk),
      st\<lparr>requests := requests st @ [Get ParserClient ''https://www.ted.com/talks/x'']\<rparr>)"
    using assms
    by (simp add: parseWithHTML_extract_def client_Get_def do_request_def storeRawResponse_def Let_def
        markup_world_extractVideoURLs markup_world_extractSubtitleURLs debugPrint_def
        markup_world_fields SelText_def First_def markup_talk_def zero_Talk_def)
  then show ?thesis
    by (simp add: parseWithHTML_def markup_talk_def len_is_zero_def)
qed

theorem ParseURL_falls_back_to_markup_witness:
  "last_nonempty (rev (Split ''https://www.ted.com/talks/x'' (CHR ''/''))) = ''x'' \<and>
   Contains ''https://www.ted.com/talks/x'' ''/talks/'' \<and>
   transport (markup_world 200) (requests New)
     (Post (GraphqlURL New) ''x'' ''https://www.ted.com/talks/x'') = None \<and>
   ParseURL (markup_world 200) New ''https://www.ted.com/talks/x'' =
     (Returns (Inr markup_talk),
      New\<lparr>requests := [Post ''https://www.ted.com/graphql'' ''x'' ''https://www.ted.com/talks/x'',
                         Get ParserClient ''https://www.ted.com/talks/x'']\<rparr>)"
proof -
  let ?url = "''https://www.ted.com/talks/x''" and ?w = "markup_world 200"
  have u: "?url = takeWhile (\<lambda>c. c \<noteq> CHR ''?'') ?url" by simp
  have g: "''x'' = last_nonempty (rev (Split ?url (CHR ''/'')))" by simp
  have c: "''x'' \<noteq> []" "\<not> Contains ''x'' ''.''" "Contains ?url ''/talks/''"
    by (simp_all add: Contains_def HasPrefix_def)
  have n: "NewRequest_ok ?w (GraphqlURL New)" "Debug New \<longrightarrow> RawResponses New \<noteq> None"
    by (simp_all add: markup_world_def blank_world_def no_control_byte_def New_def)
  have t: "transport ?w (requests New) (Post (GraphqlURL New) ''x'' ?url) = None"
    by (simp add: markup_world_def blank_world_def no_control_byte_def)
  have d: "debugPrint New m = New" for m
    by (simp add: debugPrint_def New_def)
  from ParseURL_falls_back_to_markup [OF u g c n disjI1, OF t]
  obtain e st2 where
    "parseWithGraphQL ?w (debugPrint New (ProcessingSlug ''x'')) ''x'' ?url = (Returns (Inl e), st2)"
    and p: "ParseURL ?w New ?url =
      parseWithHTML ?w (debugPrint (debugPrint st2 (GraphQLParsingFailed e)) FallingBackToHTML) ?url"
    by blast
  then have "st2 = New\<lparr>requests := [Post ''https://www.ted.com/graphql'' ''x'' ?url]\<rparr>"
    by (simp add: d markup_world_graphql)
  then have "ParseURL ?w New ?url =
     (Returns (Inr markup_talk),
      New\<lparr>requests := [Post ''https://www.ted.com/graphql'' ''x'' ?url, Get ParserClient ?url]\<rparr>)"
    using p by (simp add: debugPrint_def New_def markup_world_parseWithHTML)
  with g c t show ?thesis by simp
qed


subsection \<open>The response status\<close>

lemma status_override_fields [simp]:
  "baseURL (status_override f w) = baseURL w"
  "failed_with_response (status_override f w) = failed_with_response w"
  "NewRequest_ok (status_override f w) = NewRequest_ok w"
  "NewDocument (status_override f w) = NewDocument w"
  "Find (status_override f w) = Find w"
  "Text (status_override f w) = Text w"
  "Attr (status_override f w) = Attr w"
  "HasClass (status_override f w) = HasClass w"
  "Unmarshal_script (status_override f w) = Unmarshal_script w"
  "Unmarshal_graphql (status_override f w) = Unmarshal_graphql w"
  "ToLower (status_override f w) = ToLower w"
  "TrimSpace (status_override f w) = TrimSpace w"
  by (simp_all add: status_override_def)

lemma transport_status:
  "transport (status_override f w) h r =
     map_option (\<lambda>resp. resp\<lparr>StatusCode := f h r\<rparr>) (transport w h r)"
  by (simp add: status_override_def)

lemma script_callback_status:
  "script_callback (status_override f w) st s talk = script_callback w st s talk"
  by (simp add: script_callback_def Let_def split: outcome.splits option.splits)

lemma each_script_status:
  "each_script (status_override f w) st ss talk = each_script w st ss talk"
  by (induction ss arbitrary: st talk)
     (simp_all add: script_callback_status split: prod.splits outcome.splits)

lemma extractVideoURLs_status:
  "extractVideoURLs (status_override f w) st doc talk = extractVideoURLs w st doc talk"
  by (simp add: extractVideoURLs_def each_script_status)

lemma extractSubtitleURLs_status:
  "extractSubtitleURLs (status_override f w) doc talk = extractSubtitleURLs w doc talk"
proof -
  have "anchor_callback (status_override f w) = anchor_callback w"
    by (intro ext) (simp add: anchor_callback_def Let_def split: option.splits)
  then show ?thesis by (simp add: extractSubtitleURLs_def)
qed

lemma parseWithHTML_status:
  "parseWithHTML (status_override f w) st url = parseWithHTML w st url"
proof -
  have "parseWithHTML_extract (status_override f w) st url = parseWithHTML_extract w st url"
    by (cases "transport w (requests st) (Get ParserClient url)")
       (simp_all add: parseWithHTML_extract_def transport_status client_Get_def do_request_def Let_def
          extractVideoURLs_status extractSubtitleURLs_status SelText_def
          split: option.splits outcome.splits prod.splits)
  then show ?thesis by (simp add: parseWithHTML_def)
qed

lemma parseTalkDetails_status:
  "parseTalkDetails (status_override f w) st talk = parseTalkDetails w st talk"
  by (cases "transport w (requests st) (Get ParserClient (URL talk))")
     (simp_all add: parseTalkDetails_def transport_status client_Get_def do_request_def
        NewDocumentFromReader_def extractVideoURLs_status extractSubtitleURLs_status
        split: option.splits outcome.splits prod.splits)

text \<open>
  Claim C7, amended. On a markup-path page fetch (\<open>parseWithHTML\<close>, and
  \<open>parseTalkDetails\<close> of the listing search) a transport error surfaces to the caller as
  the "failed to fetch talk page" error, and so does a URL the client refuses (then with
  no request issued). The response status is never inspected: with any other status on
  its responses each function returns what it returns without the change, so a non-2xx
  page is parsed as a normal document.
\<close>

theorem markup_fetch_ignores_status:
  "(\<not> NewRequest_ok w url \<or> transport w (requests st) (Get ParserClient url) = None \<longrightarrow>
      parseWithHTML w st url =
        (Returns (Inl FetchTalkPageFailed),
         if NewRequest_ok w url then st\<lparr>requests := requests st @ [Get ParserClient url]\<rparr>
         else st)) \<and>
   (\<not> NewRequest_ok w (URL talk) \<or>
    transport w (requests st) (Get ParserClient (URL talk)) = None \<longrightarrow>
      parseTalkDetails w st talk =
        (Returns (Some FetchTalkPageFailed, talk),
         if NewRequest_ok w (URL talk)
         then st\<lparr>requests := requests st @ [Get ParserClient (URL talk)]\<rparr>
         else st)) \<and>
   parseWithHTML (status_override f w) st url = parseWithHTML w st url \<and>
   parseTalkDetails (status_override f w) st talk = parseTalkDetails w st talk"
  by (simp add: parseWithHTML_status parseTalkDetails_status)
     (auto simp: parseWithHTML_def parseWithHTML_extract_def parseTalkDetails_def
        client_Get_def do_request_def)

theorem markup_fetch_ignores_status_witness:
  "NewRequest_ok blank_world ''https://www.ted.com/talks/x'' \<and>
   transport blank_world (requests New) (Get ParserClient ''https://www.ted.com/talks/x'') = None \<and>
   parseWithHTML blank_world New ''https://www.ted.com/talks/x'' =
     (Returns (Inl FetchTalkPageFailed),
      New\<lparr>requests := [Get ParserClient ''https://www.ted.com/talks/x'']\<rparr>) \<and>
   parseTalkDetails blank_world New (zero_Talk\<lparr>URL := ''https://www.ted.com/talks/x''\<rparr>) =
     (Returns (Some FetchTalkPageFailed, zero_Talk\<lparr>URL := ''https://www.ted.com/talks/x''\<rparr>),
      New\<lparr>requests := [Get ParserClient ''https://www.ted.com/talks/x'']\<rparr>) \<and>
   parseWithHTML (status_override (\<lambda>h r. 404) (markup_world 200)) New
       ''https://www.ted.com/talks/x'' =
     parseWithHTML (markup_world 200) New ''https://www.ted.com/talks/x''"
proof -
  have t: "transport blank_world (requests New) (Get ParserClient ''https://www.ted.com/talks/x'') = None"
    by (simp add: blank_world_def no_control_byte_def)
  have u: "URL (zero_Talk\<lparr>URL := ''https://www.ted.com/talks/x''\<rparr>) = ''https://www.ted.com/talks/x''"
    by simp
  have r: "requests New = []"
    by (simp add: New_def)
  have k: "NewRequest_ok blank_world ''https://www.ted.com/talks/x''"
    by (simp add: blank_world_def no_control_byte_def)
  show ?thesis
    using t k
      markup_fetch_ignores_status [where w = blank_world and st = New
        and url = "''https://www.ted.com/talks/x''"
        and talk = "zero_Talk\<lparr>URL := ''https://www.ted.com/talks/x''\<rparr>"]
      markup_fetch_ignores_status [where w = "markup_world 200" and st = New
        and url = "''https://www.ted.com/talks/x''" and talk = zero_Talk
        and f = "\<lambda>h r. 404"]
    by (simp add: u r)
qed

text \<open>
  Claim C7 as stated fails: a page answered with status 404 whose body holds a subtitle
  anchor is parsed, and both \<open>parseWithHTML\<close> and \<open>parseTalkDetails\<close> return its talk
  without an error.
\<close>

theorem non_2xx_page_is_parsed_counterexample:
  "transport (markup_world 404) [] (Get ParserClient ''https://www.ted.com/talks/x'') =
     Some \<lparr>StatusCode = 404, Body = Some ''p''\<rparr> \<and>
   parseWithHTML (markup_world 404) New ''https://www.ted.com/talks/x'' =
     (Returns (Inr markup_talk),
      New\<lparr>requests := [Get ParserClient ''https://www.ted.com/talks/x'']\<rparr>) \<and>
   parseTalkDetails (markup_world 404) New (zero_Talk\<lparr>URL := ''https://www.ted.com/talks/x''\<rparr>) =
     (Returns (None, zero_Talk
        \<lparr>URL := ''https://www.ted.com/talks/x'',
         SubtitleURLs := Some [''en'' \<mapsto> ''https://www.ted.com/talks/subtitles/en'']\<rparr>),
      New\<lparr>requests := [Get ParserClient ''https://www.ted.com/talks/x'']\<rparr>)"
proof -
  have d: "Debug New = False" "requests New = []"
    by (simp_all add: New_def)
  have "parseTalkDetails (markup_world 404) New (zero_Talk\<lparr>URL := ''https://www.ted.com/talks/x''\<rparr>) =
     (Returns (None, zero_Talk
        \<lparr>URL := ''https://www.ted.com/talks/x'',
         SubtitleURLs := Some [''en'' \<mapsto> ''https://www.ted.com/talks/subtitles/en'']\<rparr>),
      New\<lparr>requests := [Get ParserClient ''https://www.ted.com/talks/x'']\<rparr>)"
    by (simp add: parseTalkDetails_def client_Get_def do_request_def NewDocumentFromReader_def d
        markup_world_fields markup_world_extractVideoURLs markup_world_extractSubtitleURLs)
  then show ?thesis
    using markup_world_parseWithHTML [OF d(1), of 404]
    by (simp add: markup_world_fields d)
qed

section \<open>Listing search\<close>

subsection \<open>What the enrichment does to the parser state\<close>

lemma script_callback_state:
  "script_callback w st s talk = (r, st') \<Longrightarrow>
   requests st' = requests st \<and> warned_urls (printed st') = warned_urls (printed st)"
  by (auto simp: script_callback_def Let_def debugPrint_def warned_urls_def
      split: if_splits outcome.splits option.splits)

lemma each_script_state:
  "each_script w st ss talk = (r, st') \<Longrightarrow>
   requests st' = requests st \<and> warned_urls (printed st') = warned_urls (printed st)"
proof (induction ss arbitrary: st talk)
  case Nil
  then show ?case by simp
next
  case (Cons s ss)
  obtain r1 st1 where c: "script_callback w st s talk = (r1, st1)" by (cases "script_callback w st s talk")
  note s1 = script_callback_state [OF c]
  show ?case
  proof (cases r1)
    case (Returns talk1)
    with Cons.prems c have "each_script w st1 ss talk1 = (r, st')" by simp
    from Cons.IH [OF this] s1 show ?thesis by simp
  next
    case (Panics p)
    with Cons.prems c s1 show ?thesis by auto
  qed
qed

lemma extractVideoURLs_state:
  "extractVideoURLs w st doc talk = (r, st') \<Longrightarrow>
   requests st' = requests st \<and> warned_urls (printed st') = warned_urls (printed st)"
  by (auto simp: extractVideoURLs_def split: prod.splits outcome.splits dest: each_script_state)



lemma parseTalkDetails_state:
  "parseTalkDetails w st talk = (r, st') \<Longrightarrow>
   requests st' =
     requests st @ (if NewRequest_ok w (URL talk) then [Get ParserClient (URL talk)] else []) \<and>
   warned_urls (printed st') = warned_urls (printed st)"
  by (auto simp: parseTalkDetails_def client_Get_def do_request_def extractSubtitleURLs_def
      split: option.splits prod.splits outcome.splits if_splits dest: extractVideoURLs_state)



subsection \<open>The loop over the listing blocks\<close>




lemma each_block_past_limit:
  "limit \<le> i \<Longrightarrow> each_block w st i limit ss talks = (Returns talks, st)"
  by (induction ss arbitrary: i) auto


lemma each_block_requests:
  "each_block w st i limit ss talks = (r, st') \<Longrightarrow> \<exists>rest. requests st' = requests st @ rest"
proof (induction ss arbitrary: st i talks)
  case Nil
  then show ?case by simp
next
  case (Cons s ss)
  show ?case
  proof (cases "limit \<le> i")
    case True
    with Cons.prems show ?thesis by (simp add: each_block_past_limit)
  next
    case False
    obtain r1 st1 where p: "parseTalkDetails w st (listing_talk w s) = (r1, st1)"
      by (cases "parseTalkDetails w st (listing_talk w s)")
    note q = parseTalkDetails_state [OF p]
    show ?thesis
    proof (cases r1)
      case (Panics x)
      with Cons.prems False p q show ?thesis by (auto simp: Let_def)
    next
      case (Returns et)
      obtain err talk' where et: "et = (err, talk')" by (cases et)
      let ?st2 = "case err of None \<Rightarrow> st1
                  | Some e \<Rightarrow> st1\<lparr>printed := printed st1 @ [WarningLine (URL (listing_talk w s)) e]\<rparr>"
      from Cons.prems False p Returns et
      have "each_block w ?st2 (i + 1) limit ss (talks @ [talk']) = (r, st')"
        by (simp add: Let_def)
      from Cons.IH [OF this] obtain rest where "requests st' = requests ?st2 @ rest" by blast
      moreover have "requests ?st2 = requests st1" by (cases err) simp_all
      ultimately show ?thesis using q by simp
    qed
  qed
qed

lemma parseTalksList_refused:
  "\<not> NewRequest_ok w url \<Longrightarrow>
   parseTalksList w st url limit = (Returns (Inl FetchTalksListFailed), st)"
  by (simp add: parseTalksList_def client_Get_def)

lemma parseTalksList_first_request:
  assumes "NewRequest_ok w url"
  shows "\<exists>rest. requests (snd (parseTalksList w st url limit)) =
     requests st @ Get ParserClient url # rest"
proof (cases "transport w (requests st) (Get ParserClient url)")
  case None
  with assms show ?thesis by (simp add: parseTalksList_def client_Get_def do_request_def)
next
  case (Some resp)
  show ?thesis
  proof (cases "NewDocumentFromReader w resp")
    case None
    with Some assms show ?thesis by (simp add: parseTalksList_def client_Get_def do_request_def)
  next
    case (Some doc)
    let ?st1 = "st\<lparr>requests := requests st @ [Get ParserClient url]\<rparr>"
    obtain r st2 where
      e: "each_block w ?st1 0 limit (Find w doc ''.media__message, .search__result'') [] = (r, st2)"
      by (cases "each_block w ?st1 0 limit (Find w doc ''.media__message, .search__result'') []")
    from each_block_requests [OF e] obtain rest where "requests st2 = requests ?st1 @ rest"
      by blast
    with e Some assms \<open>transport w (requests st) (Get ParserClient url) = Some resp\<close>
    show ?thesis
      by (cases r) (simp_all add: parseTalksList_def client_Get_def do_request_def)
  qed
qed

lemma Contains_space: "Contains query '' '' \<longleftrightarrow> CHR '' '' \<in> set query"
  by (rule Contains_char)

lemma ReplaceAll_char: "ReplaceAll s old [new] = map (\<lambda>c. if c = old then new else c) s"
  by (induction s) (auto simp: ReplaceAll_def)

subsection \<open>Topic or title\<close>

text \<open>
  Claim C8, amended. \<open>ParseTopic\<close> looks for the space character only. A query without a
  space is a topic tag: the listing is parsed from \<open>{base}/talks?topics[]={query}\<close>. A
  query with a space is a free-text title: the listing is parsed from
  \<open>{base}/search?q=\<close> followed by the query with each space replaced by \<open>+\<close>. In both
  cases, when the HTTP client accepts that URL the first request issued is the GET of
  it, and when the client refuses it (as it does a URL with a control character) the
  result is the "failed to fetch talks list" error and nothing is requested.
\<close>

theorem ParseTopic_routes_on_space:
  "(CHR '' '' \<notin> set query \<longrightarrow>
      ParseTopic w st query limit =
        parseTalksList w st (baseURL w @ ''/talks?topics[]='' @ query) limit) \<and>
   (CHR '' '' \<in> set query \<longrightarrow>
      ParseTopic w st query limit =
        parseTalksList w st
          (baseURL w @ ''/search?q='' @
             map (\<lambda>c. if c = CHR '' '' then CHR ''+'' else c) query) limit) \<and>
   (NewRequest_ok w url \<longrightarrow>
      (\<exists>rest. requests (snd (parseTalksList w st url limit)) =
         requests st @ Get ParserClient url # rest)) \<and>
   (\<not> NewRequest_ok w url \<longrightarrow>
      parseTalksList w st url limit = (Returns (Inl FetchTalksListFailed), st))"
  using parseTalksList_first_request [of w url st limit] parseTalksList_refused [of w url st limit]
  by (simp add: ParseTopic_def Contains_space ReplaceAll_char)

theorem ParseTopic_routes_on_space_witness:
  "CHR '' '' \<notin> set ''education'' \<and>
   ParseTopic blank_world New ''education'' 2 =
     parseTalksList blank_world New ''https://www.ted.com/talks?topics[]=education'' 2 \<and>
   CHR '' '' \<in> set ''the power'' \<and>
   ParseTopic blank_world New ''the power'' 2 =
     parseTalksList blank_world New ''https://www.ted.com/search?q=the+power'' 2 \<and>
   NewRequest_ok empty_listing_world ''https://www.ted.com/talks?topics[]=education'' \<and>
   (\<exists>rest. requests (snd (ParseTopic empty_listing_world New ''education'' 2)) =
      requests New @ Get ParserClient ''https://www.ted.com/talks?topics[]=education'' # rest)"
proof -
  have b: "baseURL blank_world = ''https://www.ted.com''"
    by (simp add: blank_world_def)
  have k: "NewRequest_ok empty_listing_world ''https://www.ted.com/talks?topics[]=education''"
    by (simp add: empty_listing_world_def blank_world_def no_control_byte_def)
  have e: "ParseTopic empty_listing_world New ''education'' 2 =
      parseTalksList empty_listing_world New ''https://www.ted.com/talks?topics[]=education'' 2"
    using ParseTopic_routes_on_space [where query = "''education''" and w = empty_listing_world
        and st = New and limit = 2]
    by (simp add: empty_listing_world_def blank_world_def)
  show ?thesis
    using ParseTopic_routes_on_space [where query = "''education''" and w = blank_world
        and st = New and limit = 2]
      ParseTopic_routes_on_space [where query = "''the power''" and w = blank_world
        and st = New and limit = 2]
      ParseTopic_routes_on_space [where w = empty_listing_world and st = New and limit = 2
        and url = "''https://www.ted.com/talks?topics[]=education''"]
      k
    by (simp add: b e)
qed

text \<open>
  Claim C8 as stated fails: a query of \<open>a\<close>, a no-break space (U+00A0, the bytes \<open>C2 A0\<close>)
  and \<open>b\<close> contains whitespace and no space character. Its topic URL has no control
  character, and the query is fetched as a topic listing: the one request issued is the
  GET of \<open>{base}/talks?topics[]=\<close> followed by the query.
\<close>

theorem ParseTopic_nbsp_query_counterexample:
  "nbsp_query = [CHR ''a'', CHR 0xC2, CHR 0xA0, CHR ''b''] \<and>
   NewRequest_ok empty_listing_world (''https://www.ted.com/talks?topics[]='' @ nbsp_query) \<and>
   ParseTopic empty_listing_world New nbsp_query 1 =
     (Returns (Inr []),
      New\<lparr>requests :=
        [Get ParserClient (''https://www.ted.com/talks?topics[]='' @ nbsp_query)]\<rparr>)"
  by (simp add: ParseTopic_def Contains_def HasPrefix_def nbsp_query_def parseTalksList_def
      client_Get_def do_request_def NewDocumentFromReader_def empty_listing_world_def
      blank_world_def no_control_byte_def New_def)

text \<open>A query with a tab is routed as a topic too, but its URL has a control character:
  the client refuses it and nothing is requested.\<close>

lemma ParseTopic_tab_query_refused:
  "ParseTopic blank_world New tab_query 1 = (Returns (Inl FetchTalksListFailed), New)"
  by (simp add: ParseTopic_def Contains_def HasPrefix_def tab_query_def parseTalksList_def
      client_Get_def blank_world_def no_control_byte_def)

subsection \<open>Failed enrichments\<close>


subsection \<open>The example listing\<close>








section \<open>When the markup path finds nothing\<close>

lemma len_is_zero_add_h264: "\<not> len_is_zero (VideoURLs (add_h264 h talk))"
  by (simp add: add_h264_def len_is_zero_def)

lemma len_is_zero_fold_add_h264:
  "len_is_zero (VideoURLs (fold add_h264 hs talk)) \<longleftrightarrow> hs = [] \<and> len_is_zero (VideoURLs talk)"
  by (induction hs rule: rev_induct) (simp_all add: len_is_zero_add_h264)

lemma anchor_callback_empty:
  "anchor_callback w a m = Map.empty \<longleftrightarrow>
     m = Map.empty \<and>
     (Attr w a ''href'' = None \<or> Attr w a ''data-language'' = None \<or>
      Attr w a ''data-language'' = Some [])"
  by (auto simp: anchor_callback_def Let_def split: option.splits)

lemma fold_anchor_callback_empty:
  "fold (anchor_callback w) as m = Map.empty \<longleftrightarrow>
     m = Map.empty \<and>
     (\<forall>a \<in> set as. Attr w a ''href'' = None \<or> Attr w a ''data-language'' = None \<or>
        Attr w a ''data-language'' = Some [])"
  by (induction as arbitrary: m) (auto simp: anchor_callback_empty)

text \<open>On a page that was fetched and parsed, the markup path reports "no video or subtitle
  data found" exactly when no script of the page contributes an h264 entry and no anchor
  has both an \<open>href\<close> and a non-empty language code.\<close>

lemma parseWithHTML_no_data_iff_nothing_on_page:
  assumes "NewRequest_ok w url"
    and "transport w (requests st) (Get ParserClient url) = Some resp"
    and "Body resp = Some raw" and "NewDocument w raw = Some doc"
    and "Debug st \<longrightarrow> RawResponses st \<noteq> None"
    and "\<forall>s \<in> set (Find w doc ''script''). \<not> slice_panics (Text w s)"
  shows "(\<exists>st'. parseWithHTML w st url = (Returns (Inl NoVideoOrSubtitleData), st')) \<longleftrightarrow>
     concat (map (spec_script_entries w) (Find w doc ''script'')) = [] \<and>
     (\<forall>a \<in> set (Find w doc ''a[data-language]'').
        Attr w a ''href'' = None \<or> Attr w a ''data-language'' = None \<or>
        Attr w a ''data-language'' = Some [])"
proof -
  let ?st1 = "st\<lparr>requests := requests st @ [Get ParserClient url]\<rparr>"
  let ?entries = "concat (map (spec_script_entries w) (Find w doc ''script''))"
  let ?base = "zero_Talk\<lparr>URL := url, Title := SelText w (First (Find w doc ''h1'')),
      Speaker := SelText w (First (Find w doc ''h2''))\<rparr>"
  let ?subs = "fold (anchor_callback w) (Find w doc ''a[data-language]'') Map.empty"
  let ?talk = "(fold add_h264 ?entries ?base)\<lparr>SubtitleURLs := Some ?subs\<rparr>"
  from assms(5) obtain st2 where s: "storeRawResponse ?st1 ''html_fallback'' raw = Returns st2"
    using storeRawResponse_Returns [of ?st1] by auto
  from each_script_returns [OF assms(6), of st2 ?base] obtain st3 where
    "each_script w st2 (Find w doc ''script'') ?base = (Returns (fold add_h264 ?entries ?base), st3)"
    by blast
  then have v: "extractVideoURLs w st2 doc ?base = (Returns (None, fold add_h264 ?entries ?base), st3)"
    by (simp add: extractVideoURLs_def)
  have "\<exists>st'. parseWithHTML_extract w st url = (Returns (Inr ?talk), st')"
    using assms(1-4) s v
    by (simp add: parseWithHTML_extract_def client_Get_def do_request_def extractSubtitleURLs_def Let_def)
  then obtain st6 where x: "parseWithHTML_extract w st url = (Returns (Inr ?talk), st6)"
    by blast
  have "(\<exists>st'. parseWithHTML w st url = (Returns (Inl NoVideoOrSubtitleData), st')) \<longleftrightarrow>
      len_is_zero (VideoURLs ?talk) \<and> len_is_zero (SubtitleURLs ?talk)"
    using x by (auto simp: parseWithHTML_empty_iff)
  also have "len_is_zero (VideoURLs ?talk) \<longleftrightarrow> ?entries = []"
    by (simp add: len_is_zero_fold_add_h264) (simp add: len_is_zero_def zero_Talk_def)
  also have "len_is_zero (SubtitleURLs ?talk) \<longleftrightarrow>
      (\<forall>a \<in> set (Find w doc ''a[data-language]'').
        Attr w a ''href'' = None \<or> Attr w a ''data-language'' = None \<or>
        Attr w a ''data-language'' = Some [])"
    by (simp add: len_is_zero_def fold_anchor_callback_empty)
  finally show ?thesis .
qed


end
